theory Spec2Isabelle
  imports Complex_Main "HOL-Library.Word"
begin

section \<open>Machine types of the capture core\<close>

text \<open>
  The source is \<^verbatim>\<open>jni/minicap-shared/aosp/src/minicap_22.cpp\<close>. Its integers are the
  fixed-width C++ types; unsigned arithmetic wraps, as \<open>+\<close> and \<open>*\<close> on words do. An
  \<^verbatim>\<open>int32_t\<close> is a 32-bit word in two's complement (\<open>sint\<close> reads its value); the source
  only compares such values for equality.
  \<open>handle\<close> is the identity of an object of the platform behind a strong pointer
  (\<^verbatim>\<open>android::sp<T>\<close>); a null strong pointer is \<open>None\<close>.
\<close>

type_synonym u8 = "8 word"
type_synonym u32 = "32 word"
type_synonym int32 = "32 word"
type_synonym status_t = int32
type_synonym PixelFormat = int32
type_synonym handle = nat

text \<open>
  \<^verbatim>\<open>android::NO_ERROR\<close> is declared by the platform header \<^verbatim>\<open>utils/Errors.h\<close>, where it is
  the same value as \<^verbatim>\<open>android::OK\<close>, zero (see the comment in \<^verbatim>\<open>error_name\<close>). The source
  only ever compares a status with it.
\<close>

definition NO_ERROR :: status_t where
  "NO_ERROR = 0"

section \<open>Pixel formats\<close>

text \<open>The normalized formats of \<^verbatim>\<open>Minicap::Format\<close>, as \<^verbatim>\<open>convertFormat\<close> returns them.\<close>

datatype Format =
    FORMAT_NONE
  | FORMAT_CUSTOM
  | FORMAT_TRANSLUCENT
  | FORMAT_TRANSPARENT
  | FORMAT_OPAQUE
  | FORMAT_RGBA_8888
  | FORMAT_RGBX_8888
  | FORMAT_RGB_888
  | FORMAT_RGB_565
  | FORMAT_BGRA_8888
  | FORMAT_RGBA_5551
  | FORMAT_RGBA_4444
  | FORMAT_UNKNOWN

text \<open>
  The native codes \<^verbatim>\<open>android::PIXEL_FORMAT_*\<close> come from the platform header
  \<^verbatim>\<open>ui/PixelFormat.h\<close>, which is not part of the repository. The model takes them as a
  table, one field for each case label of the \<^verbatim>\<open>switch\<close> in \<^verbatim>\<open>convertFormat\<close>.
\<close>

record PixelFormats =
  PIXEL_FORMAT_NONE :: PixelFormat
  PIXEL_FORMAT_CUSTOM :: PixelFormat
  PIXEL_FORMAT_TRANSLUCENT :: PixelFormat
  PIXEL_FORMAT_TRANSPARENT :: PixelFormat
  PIXEL_FORMAT_OPAQUE :: PixelFormat
  PIXEL_FORMAT_RGBA_8888 :: PixelFormat
  PIXEL_FORMAT_RGBX_8888 :: PixelFormat
  PIXEL_FORMAT_RGB_888 :: PixelFormat
  PIXEL_FORMAT_RGB_565 :: PixelFormat
  PIXEL_FORMAT_BGRA_8888 :: PixelFormat
  PIXEL_FORMAT_RGBA_5551 :: PixelFormat
  PIXEL_FORMAT_RGBA_4444 :: PixelFormat

text \<open>The case labels in the order of the source.\<close>

definition case_labels :: "PixelFormats \<Rightarrow> PixelFormat list" where
  "case_labels pf =
     [PIXEL_FORMAT_NONE pf, PIXEL_FORMAT_CUSTOM pf, PIXEL_FORMAT_TRANSLUCENT pf,
      PIXEL_FORMAT_TRANSPARENT pf, PIXEL_FORMAT_OPAQUE pf, PIXEL_FORMAT_RGBA_8888 pf,
      PIXEL_FORMAT_RGBX_8888 pf, PIXEL_FORMAT_RGB_888 pf, PIXEL_FORMAT_RGB_565 pf,
      PIXEL_FORMAT_BGRA_8888 pf, PIXEL_FORMAT_RGBA_5551 pf, PIXEL_FORMAT_RGBA_4444 pf]"

text \<open>
  \<^verbatim>\<open>MinicapImpl::convertFormat\<close> (lines 295-325): a \<^verbatim>\<open>switch\<close> with twelve labels and a
  \<^verbatim>\<open>default\<close> arm, every arm a \<^verbatim>\<open>return\<close>.
\<close>

definition convertFormat :: "PixelFormats \<Rightarrow> PixelFormat \<Rightarrow> Format" where
  "convertFormat pf format =
     (if format = PIXEL_FORMAT_NONE pf then FORMAT_NONE
      else if format = PIXEL_FORMAT_CUSTOM pf then FORMAT_CUSTOM
      else if format = PIXEL_FORMAT_TRANSLUCENT pf then FORMAT_TRANSLUCENT
      else if format = PIXEL_FORMAT_TRANSPARENT pf then FORMAT_TRANSPARENT
      else if format = PIXEL_FORMAT_OPAQUE pf then FORMAT_OPAQUE
      else if format = PIXEL_FORMAT_RGBA_8888 pf then FORMAT_RGBA_8888
      else if format = PIXEL_FORMAT_RGBX_8888 pf then FORMAT_RGBX_8888
      else if format = PIXEL_FORMAT_RGB_888 pf then FORMAT_RGB_888
      else if format = PIXEL_FORMAT_RGB_565 pf then FORMAT_RGB_565
      else if format = PIXEL_FORMAT_BGRA_8888 pf then FORMAT_BGRA_8888
      else if format = PIXEL_FORMAT_RGBA_5551 pf then FORMAT_RGBA_5551
      else if format = PIXEL_FORMAT_RGBA_4444 pf then FORMAT_RGBA_4444
      else FORMAT_UNKNOWN)"

text \<open>The values returned for the case labels, in the same order.\<close>

definition targets :: "Format list" where
  "targets =
     [FORMAT_NONE, FORMAT_CUSTOM, FORMAT_TRANSLUCENT, FORMAT_TRANSPARENT, FORMAT_OPAQUE,
      FORMAT_RGBA_8888, FORMAT_RGBX_8888, FORMAT_RGB_888, FORMAT_RGB_565, FORMAT_BGRA_8888,
      FORMAT_RGBA_5551, FORMAT_RGBA_4444]"

text \<open>
  A table of native codes to run the model on: the values that the platform header of
  API level 22 gives the twelve names.
\<close>

definition platform_formats :: PixelFormats where
  "platform_formats =
     \<lparr>PIXEL_FORMAT_NONE = 0, PIXEL_FORMAT_CUSTOM = - 4, PIXEL_FORMAT_TRANSLUCENT = - 3,
      PIXEL_FORMAT_TRANSPARENT = - 2, PIXEL_FORMAT_OPAQUE = - 1, PIXEL_FORMAT_RGBA_8888 = 1,
      PIXEL_FORMAT_RGBX_8888 = 2, PIXEL_FORMAT_RGB_888 = 3, PIXEL_FORMAT_RGB_565 = 4,
      PIXEL_FORMAT_BGRA_8888 = 5, PIXEL_FORMAT_RGBA_5551 = 6, PIXEL_FORMAT_RGBA_4444 = 7\<rparr>"

section \<open>Faults\<close>

text \<open>
  Two kinds of undefined behaviour are within reach of the source: calling a method
  through a null strong pointer, and overflow of the \<^verbatim>\<open>int\<close> counter of the frame waiter.
  The model stops at either with a fault.
\<close>

datatype fault = NullPointer | SignedOverflow

type_synonym 'a result = "fault + 'a"

text \<open>The range of a 32-bit \<^verbatim>\<open>int\<close>.\<close>

definition INT_MAX :: int where
  "INT_MAX = 2147483647"

definition INT_MIN :: int where
  "INT_MIN = - 2147483648"

section \<open>The frame waiter\<close>

text \<open>
  \<^verbatim>\<open>class FrameWaiter\<close> (lines 75-99): a counter of frames that were announced and not yet
  waited for, guarded by a mutex, with a condition variable. Both methods hold the mutex
  for their whole body, so each body is one atomic step, except where
  \<^verbatim>\<open>mCondition.wait(mMutex)\<close> gives the mutex up.

  The counter is a C++ \<^verbatim>\<open>int\<close>: a value between \<open>INT_MIN\<close> and \<open>INT_MAX\<close>. An increment
  at \<open>INT_MAX\<close> and a decrement at \<open>INT_MIN\<close> overflow, which is undefined in C++, and are
  faults of the model.
\<close>

record FrameWaiter =
  mPendingFrames :: int

text \<open>The constructor (line 77).\<close>

definition FrameWaiter_new :: FrameWaiter where
  "FrameWaiter_new = \<lparr>mPendingFrames = 0\<rparr>"

text \<open>
  \<^verbatim>\<open>onFrameAvailable\<close> (lines 88-93), called by the platform's consumer on the producer's
  thread: \<^verbatim>\<open>mPendingFrames++\<close>, one more pending frame; \<^verbatim>\<open>mCondition.signal()\<close> wakes a
  parked waiter.
\<close>

definition onFrameAvailable :: "FrameWaiter \<Rightarrow> FrameWaiter result" where
  "onFrameAvailable w =
     (if mPendingFrames w < INT_MAX then Inr (w\<lparr>mPendingFrames := mPendingFrames w + 1\<rparr>)
      else Inl SignedOverflow)"

text \<open>\<open>k\<close> calls of \<^verbatim>\<open>onFrameAvailable\<close> in a row.\<close>

fun signals :: "nat \<Rightarrow> FrameWaiter \<Rightarrow> FrameWaiter result" where
  "signals 0 w = Inr w"
| "signals (Suc k) w =
     (case onFrameAvailable w of
        Inl e \<Rightarrow> Inl e
      | Inr w' \<Rightarrow> signals k w')"

text \<open>The statement \<^verbatim>\<open>mPendingFrames--\<close> (line 85).\<close>

definition decrement :: "FrameWaiter \<Rightarrow> FrameWaiter result" where
  "decrement w =
     (if INT_MIN < mPendingFrames w then Inr (w\<lparr>mPendingFrames := mPendingFrames w - 1\<rparr>)
      else Inl SignedOverflow)"

text \<open>
  \<^verbatim>\<open>FrameWaiter::waitForFrame\<close> (lines 80-86):
  \<^verbatim>\<open>while (mPendingFrames == 0) mCondition.wait(mMutex); mPendingFrames--;\<close>
  The loop may run forever. While the caller is parked in \<^verbatim>\<open>mCondition.wait\<close> the mutex is
  free and the producer's thread can run \<^verbatim>\<open>onFrameAvailable\<close>. The first argument is the
  schedule of those parkings: its \<open>k\<close>-th entry is the number of \<^verbatim>\<open>onFrameAvailable\<close>
  calls that complete during the \<open>k\<close>-th parking, before the caller has the mutex again
  (\<open>0\<close> is a spurious wake-up). The loop tests the counter again after every parking.
  The result is \<open>Inr None\<close> when the schedule ends with the caller still parked: the call
  does not return. When it returns, the result is the unused rest of the schedule and
  the waiter after the decrement.
\<close>

fun FrameWaiter_waitForFrame ::
  "nat list \<Rightarrow> FrameWaiter \<Rightarrow> (nat list \<times> FrameWaiter) option result" where
  "FrameWaiter_waitForFrame [] w =
     (if mPendingFrames w = 0 then Inr None
      else
        (case decrement w of
           Inl e \<Rightarrow> Inl e
         | Inr w' \<Rightarrow> Inr (Some ([], w'))))"
| "FrameWaiter_waitForFrame (k # parks) w =
     (if mPendingFrames w = 0 then
        (case signals k w of
           Inl e \<Rightarrow> Inl e
         | Inr w' \<Rightarrow> FrameWaiter_waitForFrame parks w')
      else
        (case decrement w of
           Inl e \<Rightarrow> Inl e
         | Inr w' \<Rightarrow> Inr (Some (k # parks, w'))))"

text \<open>
  A sequence of calls on one waiter, in the order in which they take the mutex. A \<open>Wait\<close>
  is a call of \<^verbatim>\<open>waitForFrame\<close> during which the producer is silent (the empty schedule):
  it returns at once when a frame is pending and never otherwise. \<open>run_calls\<close> is
  \<open>Inr None\<close> when one of the waits does not return, and a fault when one of the calls
  overflows the counter.
\<close>

datatype waiter_call = Signal | Wait

fun run_calls :: "waiter_call list \<Rightarrow> FrameWaiter \<Rightarrow> FrameWaiter option result" where
  "run_calls [] w = Inr (Some w)"
| "run_calls (Signal # cs) w =
     (case onFrameAvailable w of
        Inl e \<Rightarrow> Inl e
      | Inr w' \<Rightarrow> run_calls cs w')"
| "run_calls (Wait # cs) w =
     (case FrameWaiter_waitForFrame [] w of
        Inl e \<Rightarrow> Inl e
      | Inr None \<Rightarrow> Inr None
      | Inr (Some (_, w')) \<Rightarrow> run_calls cs w')"

text \<open>
  The waiters that a program can see: a new one, and one on which \<^verbatim>\<open>onFrameAvailable\<close> or
  \<^verbatim>\<open>waitForFrame\<close> (under any schedule) has been called and has returned.
\<close>

inductive waiter_reachable :: "FrameWaiter \<Rightarrow> bool" where
  init: "waiter_reachable FrameWaiter_new"
| signal: "waiter_reachable w \<Longrightarrow> onFrameAvailable w = Inr w' \<Longrightarrow> waiter_reachable w'"
| wait: "waiter_reachable w \<Longrightarrow> FrameWaiter_waitForFrame parks w = Inr (Some (rest, w')) \<Longrightarrow>
         waiter_reachable w'"

text \<open>
  In a sequence of calls, the waits never outnumber the signals before them: every prefix
  has at most as many \<open>Wait\<close> as \<open>Signal\<close>. The pending frames stay within an \<^verbatim>\<open>int\<close>:
  in every prefix the signals exceed the waits by at most \<open>INT_MAX\<close>. \<open>covered cs n\<close> is
  both tests run from left to right with \<open>n\<close> signals in hand.
\<close>

definition never_outnumber :: "waiter_call list \<Rightarrow> bool" where
  "never_outnumber cs =
     (\<forall>k \<in> {0..length cs}. count_list (take k cs) Wait \<le> count_list (take k cs) Signal)"

definition pending_within_int :: "waiter_call list \<Rightarrow> bool" where
  "pending_within_int cs =
     (\<forall>k \<in> {0..length cs}.
        int (count_list (take k cs) Signal) - int (count_list (take k cs) Wait) \<le> INT_MAX)"

fun covered :: "waiter_call list \<Rightarrow> int \<Rightarrow> bool" where
  "covered [] n = True"
| "covered (Signal # cs) n = (n < INT_MAX \<and> covered cs (n + 1))"
| "covered (Wait # cs) n = (0 < n \<and> covered cs (n - 1))"

text \<open>
  \<open>2 ^ 31\<close> signals followed by as many waits: the waits never outnumber the signals
  before them.
\<close>

definition overflow_run :: "waiter_call list" where
  "overflow_run = replicate (2 ^ 31) Signal @ replicate (2 ^ 31) Wait"

section \<open>Buffers, frames and display information\<close>

text \<open>
  \<^verbatim>\<open>android::CpuConsumer::LockedBuffer\<close> is a platform type; these are the fields that
  \<^verbatim>\<open>consumePendingFrame\<close> reads. \<open>buf_data\<close> is the address of the pixels.
\<close>

record LockedBuffer =
  buf_data :: nat
  buf_width :: u32
  buf_height :: u32
  buf_format :: PixelFormat
  buf_stride :: u32

text \<open>
  \<^verbatim>\<open>Minicap::Frame\<close> and \<^verbatim>\<open>Minicap::DisplayInfo\<close> are declared in \<^verbatim>\<open>Minicap.hpp\<close>; the fields
  are those the source assigns, with the widths of the interface description
  (32-bit unsigned sizes, an 8-bit orientation). The size of a frame is a product of three
  32-bit unsigned operands, so it is computed modulo \<open>2 ^ 32\<close> whatever the width of the
  field that receives it. \<open>'f\<close> is the type of the floating-point fields.
\<close>

record Frame =
  frame_data :: nat
  frame_format :: Format
  frame_width :: u32
  frame_height :: u32
  frame_stride :: u32
  frame_bpp :: u32
  frame_size :: u32

record 'f DisplayInfo =
  info_width :: u32
  info_height :: u32
  info_orientation :: u8
  info_fps :: 'f
  info_density :: 'f
  info_xdpi :: 'f
  info_ydpi :: 'f
  info_secure :: bool
  info_size :: 'f

text \<open>The platform's \<^verbatim>\<open>android::DisplayInfo\<close>, as far as the source reads it.\<close>

record 'f android_DisplayInfo =
  dinfo_w :: u32
  dinfo_h :: u32
  dinfo_xdpi :: 'f
  dinfo_ydpi :: 'f
  dinfo_fps :: 'f
  dinfo_density :: 'f
  dinfo_orientation :: u8
  dinfo_secure :: bool

text \<open>
  Floating-point arithmetic is not modelled bit by bit. The operations that line 348 uses
  are parameters of the model: the conversion of a \<^verbatim>\<open>uint32_t\<close> operand of a division, the
  division, \<^verbatim>\<open>pow\<close> with an integer exponent, the addition and \<^verbatim>\<open>sqrt\<close>, each with the
  conversions between floating-point widths that C++ applies to it.
\<close>

record 'f float_ops =
  of_u32 :: "u32 \<Rightarrow> 'f"
  fdiv :: "'f \<Rightarrow> 'f \<Rightarrow> 'f"
  fpow :: "'f \<Rightarrow> int \<Rightarrow> 'f"
  fadd :: "'f \<Rightarrow> 'f \<Rightarrow> 'f"
  fsqrt :: "'f \<Rightarrow> 'f"

text \<open>
  \<^verbatim>\<open>minicap_try_get_display_info\<close> (lines 328-351). The two platform calls are parameters:
  \<open>getBuiltInDisplay\<close> gives the display handle of an id (null for an id without a
  display), \<open>getDisplayInfo\<close> gives the status of the query together with the content of
  \<^verbatim>\<open>dinfo\<close> after it. The last argument is what \<^verbatim>\<open>*info\<close> holds before the call; the result
  is the returned flag and what \<^verbatim>\<open>*info\<close> holds afterwards. The error message is not
  modelled.
\<close>

definition minicap_try_get_display_info ::
  "'f float_ops \<Rightarrow> (int32 \<Rightarrow> handle option) \<Rightarrow>
   (handle option \<Rightarrow> status_t \<times> 'f android_DisplayInfo) \<Rightarrow>
   int32 \<Rightarrow> 'f DisplayInfo \<Rightarrow> bool \<times> 'f DisplayInfo" where
  "minicap_try_get_display_info fl getBuiltInDisplay getDisplayInfo displayId info =
     (let dpy = getBuiltInDisplay displayId;
          (err, dinfo) = getDisplayInfo dpy
      in if err \<noteq> NO_ERROR then (False, info)
         else
           (True,
            info\<lparr>info_width := dinfo_w dinfo,
                 info_height := dinfo_h dinfo,
                 info_orientation := dinfo_orientation dinfo,
                 info_fps := dinfo_fps dinfo,
                 info_density := dinfo_density dinfo,
                 info_xdpi := dinfo_xdpi dinfo,
                 info_ydpi := dinfo_ydpi dinfo,
                 info_secure := dinfo_secure dinfo,
                 info_size :=
                   fsqrt fl
                     (fadd fl (fpow fl (fdiv fl (of_u32 fl (dinfo_w dinfo)) (dinfo_xdpi dinfo)) 2)
                              (fpow fl (fdiv fl (of_u32 fl (dinfo_h dinfo)) (dinfo_ydpi dinfo)) 2))\<rparr>))"

section \<open>The capture session\<close>

text \<open>
  The data members of \<^verbatim>\<open>class MinicapImpl\<close> (lines 204-218). \<open>mWaiter\<close> holds the waiter
  itself: the session and the platform's consumer share the one object, and the
  consumer only ever calls \<^verbatim>\<open>onFrameAvailable\<close> on it.
\<close>

record MinicapImpl =
  mDisplayId :: int32
  mRealWidth :: u32
  mRealHeight :: u32
  mDesiredWidth :: u32
  mDesiredHeight :: u32
  mDesiredOrientation :: u8
  mBufferProducer :: "handle option"
  mBufferConsumer :: "handle option"
  mConsumer :: "handle option"
  mVirtualDisplay :: "handle option"
  mWaiter :: "FrameWaiter option"
  mHaveBuffer :: bool
  mHavePendingFrame :: bool
  mHaveRunningDisplay :: bool
  mBuffer :: LockedBuffer

text \<open>
  The calls into the platform, one constructor for each call in the source, with the
  arguments the source passes. Every operation returns the calls it made, in order.
\<close>

datatype call =
    NewSurfaceComposerClient
  | InitCheck
  | CreateDisplay string bool
  | CreateBufferQueue
  | DisableAsyncBuffer "handle option"
  | SetDefaultBufferSize "handle option" u32 u32
  | SetDefaultBufferFormat "handle option" PixelFormat
  | NewCpuConsumer "handle option" nat bool
  | SetName "handle option" string
  | SetFrameAvailableListener "handle option"
  | OpenGlobalTransaction
  | SetDisplaySurface "handle option" "handle option"
  | SetDisplayProjection "handle option" u8 "u32 \<times> u32" "u32 \<times> u32"
  | SetDisplayLayerStack "handle option" nat
  | CloseGlobalTransaction
  | DestroyDisplay "handle option"
  | LockNextBuffer handle
  | UnlockBuffer handle LockedBuffer

text \<open>
  What the platform answers during \<^verbatim>\<open>createVirtualDisplay\<close>: the status of
  \<^verbatim>\<open>initCheck\<close>, the display token of \<^verbatim>\<open>createDisplay\<close> (which may be null), and the new
  producer, buffer consumer and CPU consumer objects.
\<close>

record create_answers =
  initCheck_status :: status_t
  new_display :: "handle option"
  new_producer :: handle
  new_bufferConsumer :: handle
  new_cpuConsumer :: handle

text \<open>
  The constructor (lines 104-114). It does not initialise \<^verbatim>\<open>mBuffer\<close>, whose content
  \<open>b0\<close> is whatever the memory holds; the strong pointers start null.
\<close>

definition MinicapImpl_new :: "int32 \<Rightarrow> LockedBuffer \<Rightarrow> MinicapImpl" where
  "MinicapImpl_new displayId b0 =
     \<lparr>mDisplayId = displayId,
      mRealWidth = 0,
      mRealHeight = 0,
      mDesiredWidth = 0,
      mDesiredHeight = 0,
      mDesiredOrientation = 0,
      mBufferProducer = None,
      mBufferConsumer = None,
      mConsumer = None,
      mVirtualDisplay = None,
      mWaiter = None,
      mHaveBuffer = False,
      mHavePendingFrame = False,
      mHaveRunningDisplay = False,
      mBuffer = b0\<rparr>"

text \<open>The conversion of an integer to \<^verbatim>\<open>bool\<close> in a \<^verbatim>\<open>return\<close> statement.\<close>

definition bool_of_int :: "int \<Rightarrow> bool" where
  "bool_of_int n = (n \<noteq> 0)"

text \<open>
  The block \<^verbatim>\<open>if (mHaveBuffer) { mConsumer->unlockBuffer(mBuffer); mHaveBuffer = false; }\<close>,
  which the source has twice (lines 192-195 and 280-283).
\<close>

definition unlockHeldBuffer :: "MinicapImpl \<Rightarrow> (call list \<times> MinicapImpl) result" where
  "unlockHeldBuffer s =
     (if mHaveBuffer s then
        (case mConsumer s of
           None \<Rightarrow> Inl NullPointer
         | Some c \<Rightarrow> Inr ([UnlockBuffer c (mBuffer s)], s\<lparr>mHaveBuffer := False\<rparr>))
      else Inr ([], s))"

text \<open>\<^verbatim>\<open>destroyVirtualDisplay\<close> (lines 275-293).\<close>

definition destroyVirtualDisplay :: "MinicapImpl \<Rightarrow> (call list \<times> MinicapImpl) result" where
  "destroyVirtualDisplay s =
     (case unlockHeldBuffer s of
        Inl e \<Rightarrow> Inl e
      | Inr (unlocks, s1) \<Rightarrow>
          Inr (DestroyDisplay (mVirtualDisplay s) # unlocks,
               s1\<lparr>mBufferProducer := None,
                  mBufferConsumer := None,
                  mConsumer := None,
                  mWaiter := None,
                  mVirtualDisplay := None,
                  mHavePendingFrame := False,
                  mHaveRunningDisplay := False\<rparr>))"

text \<open>
  \<^verbatim>\<open>createVirtualDisplay\<close> (lines 220-273). A rectangle \<^verbatim>\<open>Rect(w, h)\<close> is the pair of its
  width and height. The function ends with \<^verbatim>\<open>return 0;\<close>.
\<close>

definition createVirtualDisplay ::
  "PixelFormats \<Rightarrow> create_answers \<Rightarrow> MinicapImpl \<Rightarrow> call list \<times> bool \<times> MinicapImpl" where
  "createVirtualDisplay pf env s =
     (let layerStackRect = (mRealWidth s, mRealHeight s);
          visibleRect = (mDesiredWidth s, mDesiredHeight s)
      in if initCheck_status env \<noteq> NO_ERROR then ([NewSurfaceComposerClient, InitCheck], False, s)
         else
           (let s1 = s\<lparr>mVirtualDisplay := new_display env\<rparr>;
                s2 = s1\<lparr>mBufferProducer := Some (new_producer env),
                        mBufferConsumer := Some (new_bufferConsumer env)\<rparr>;
                s3 = s2\<lparr>mConsumer := Some (new_cpuConsumer env)\<rparr>;
                s4 = s3\<lparr>mWaiter := Some FrameWaiter_new\<rparr>
            in ([NewSurfaceComposerClient, InitCheck,
                 CreateDisplay ''minicap'' True,
                 CreateBufferQueue,
                 DisableAsyncBuffer (mBufferConsumer s2),
                 SetDefaultBufferSize (mBufferConsumer s2) (mDesiredWidth s2) (mDesiredHeight s2),
                 SetDefaultBufferFormat (mBufferConsumer s2) (PIXEL_FORMAT_RGBA_8888 pf),
                 NewCpuConsumer (mBufferConsumer s2) 1 False,
                 SetName (mConsumer s3) ''minicap'',
                 SetFrameAvailableListener (mConsumer s4),
                 OpenGlobalTransaction,
                 SetDisplaySurface (mVirtualDisplay s4) (mBufferProducer s4),
                 SetDisplayProjection (mVirtualDisplay s4) (mDesiredOrientation s4)
                   layerStackRect visibleRect,
                 SetDisplayLayerStack (mVirtualDisplay s4) 0,
                 CloseGlobalTransaction],
                bool_of_int 0,
                s4\<lparr>mHaveRunningDisplay := True\<rparr>)))"

text \<open>\<^verbatim>\<open>applyConfigChanges\<close> (lines 121-128).\<close>

definition applyConfigChanges ::
  "PixelFormats \<Rightarrow> create_answers \<Rightarrow> MinicapImpl \<Rightarrow> (call list \<times> bool \<times> MinicapImpl) result" where
  "applyConfigChanges pf env s =
     (case (if mHaveRunningDisplay s then destroyVirtualDisplay s else Inr ([], s)) of
        Inl e \<Rightarrow> Inl e
      | Inr (calls1, s1) \<Rightarrow>
          (case createVirtualDisplay pf env s1 of
             (calls2, r, s2) \<Rightarrow> Inr (calls1 @ calls2, r, s2)))"

text \<open>
  \<^verbatim>\<open>consumePendingFrame\<close> (lines 130-153). \<open>lock\<close> is the answer of
  \<^verbatim>\<open>mConsumer->lockNextBuffer(&mBuffer)\<close>: its status and the content of \<^verbatim>\<open>mBuffer\<close> after
  the call. \<open>bytesPerPixel\<close> is the platform's \<^verbatim>\<open>android::bytesPerPixel\<close>, as the value
  that the assignment stores in the 32-bit field \<^verbatim>\<open>frame->bpp\<close>. The last argument is the
  content of \<^verbatim>\<open>*frame\<close> before the call. The error message is not modelled.
\<close>

definition consumePendingFrame ::
  "PixelFormats \<Rightarrow> (PixelFormat \<Rightarrow> u32) \<Rightarrow> status_t \<times> LockedBuffer \<Rightarrow> MinicapImpl \<Rightarrow> Frame \<Rightarrow>
   (call list \<times> bool \<times> MinicapImpl \<times> Frame) result" where
  "consumePendingFrame pf bytesPerPixel lock s frame =
     (case mConsumer s of
        None \<Rightarrow> Inl NullPointer
      | Some c \<Rightarrow>
          (let (err, b) = lock;
               s1 = s\<lparr>mBuffer := b\<rparr>
           in if err \<noteq> NO_ERROR then Inr ([LockNextBuffer c], False, s1, frame)
              else
                (let f1 = frame\<lparr>frame_data := buf_data (mBuffer s1)\<rparr>;
                     f2 = f1\<lparr>frame_format := convertFormat pf (buf_format (mBuffer s1))\<rparr>;
                     f3 = f2\<lparr>frame_width := buf_width (mBuffer s1)\<rparr>;
                     f4 = f3\<lparr>frame_height := buf_height (mBuffer s1)\<rparr>;
                     f5 = f4\<lparr>frame_stride := buf_stride (mBuffer s1)\<rparr>;
                     f6 = f5\<lparr>frame_bpp := bytesPerPixel (buf_format (mBuffer s1))\<rparr>;
                     f7 = f6\<lparr>frame_size :=
                            buf_stride (mBuffer s1) * buf_height (mBuffer s1) * frame_bpp f6\<rparr>
                 in Inr ([LockNextBuffer c], True,
                         s1\<lparr>mHaveBuffer := True, mHavePendingFrame := False\<rparr>, f7))))"

text \<open>The getters (lines 155-168) and \<^verbatim>\<open>release\<close> (lines 170-173).\<close>

datatype CaptureMethod = METHOD_VIRTUAL_DISPLAY

definition getCaptureMethod :: "MinicapImpl \<Rightarrow> CaptureMethod" where
  "getCaptureMethod s = METHOD_VIRTUAL_DISPLAY"

definition getDisplayId :: "MinicapImpl \<Rightarrow> int32" where
  "getDisplayId s = mDisplayId s"

definition hasPendingFrame :: "MinicapImpl \<Rightarrow> bool" where
  "hasPendingFrame s = mHavePendingFrame s"

definition release :: "MinicapImpl \<Rightarrow> (call list \<times> MinicapImpl) result" where
  "release s = destroyVirtualDisplay s"

text \<open>The setters (lines 175-188).\<close>

definition setDesiredInfo :: "'f DisplayInfo \<Rightarrow> MinicapImpl \<Rightarrow> bool \<times> MinicapImpl" where
  "setDesiredInfo info s =
     (True, s\<lparr>mDesiredWidth := info_width info,
              mDesiredHeight := info_height info,
              mDesiredOrientation := info_orientation info\<rparr>)"

definition setRealInfo :: "'f DisplayInfo \<Rightarrow> MinicapImpl \<Rightarrow> bool \<times> MinicapImpl" where
  "setRealInfo info s =
     (True, s\<lparr>mRealWidth := info_width info,
              mRealHeight := info_height info\<rparr>)"

text \<open>
  \<^verbatim>\<open>MinicapImpl::waitForFrame\<close> (lines 190-201). The call either returns (\<open>Woken\<close>: the
  platform calls made, the rest of the schedule, the returned flag, the session) or stays
  parked in the waiter (\<open>Parked\<close>: the calls made before, and the session as it then is).
\<close>

datatype wait_outcome =
    Woken "call list" "nat list" bool MinicapImpl
  | Parked "call list" MinicapImpl

definition waitForFrame :: "nat list \<Rightarrow> MinicapImpl \<Rightarrow> wait_outcome result" where
  "waitForFrame parks s =
     (case unlockHeldBuffer s of
        Inl e \<Rightarrow> Inl e
      | Inr (unlocks, s1) \<Rightarrow>
          (case mWaiter s1 of
             None \<Rightarrow> Inl NullPointer
           | Some w \<Rightarrow>
               (case FrameWaiter_waitForFrame parks w of
                  Inl e \<Rightarrow> Inl e
                | Inr None \<Rightarrow> Inr (Parked unlocks s1)
                | Inr (Some (rest, w')) \<Rightarrow>
                    Inr (Woken unlocks rest True
                           (s1\<lparr>mWaiter := Some w', mHavePendingFrame := True\<rparr>)))))"

text \<open>
  The platform announces a frame to the session's listener, between two calls of the
  consumer's thread. A session without a waiter has no listener registered.
\<close>

definition frameAvailable :: "MinicapImpl \<Rightarrow> MinicapImpl result" where
  "frameAvailable s =
     (case mWaiter s of
        None \<Rightarrow> Inr s
      | Some w \<Rightarrow>
          (case onFrameAvailable w of
             Inl e \<Rightarrow> Inl e
           | Inr w' \<Rightarrow> Inr (s\<lparr>mWaiter := Some w'\<rparr>)))"

text \<open>
  What holds of every session that the operations can produce from a new one: the CPU
  consumer exists exactly while the display runs, a running display has its waiter, a
  buffer is held only while the display runs, and the waiter's counter is between 0 and
  \<open>INT_MAX\<close>.
\<close>

definition consistent :: "MinicapImpl \<Rightarrow> bool" where
  "consistent s =
     ((mHaveRunningDisplay s \<longleftrightarrow> mConsumer s \<noteq> None)
      \<and> (mHaveRunningDisplay s \<longrightarrow> mWaiter s \<noteq> None)
      \<and> (mHaveBuffer s \<longrightarrow> mHaveRunningDisplay s)
      \<and> (case mWaiter s of
            None \<Rightarrow> True
          | Some w \<Rightarrow> 0 \<le> mPendingFrames w \<and> mPendingFrames w \<le> INT_MAX))"

text \<open>
  The unlock call that the session owes for the buffer it holds, if it holds one, and
  the state after a teardown.
\<close>

definition held_unlock :: "MinicapImpl \<Rightarrow> call list" where
  "held_unlock s =
     (case mConsumer s of
        None \<Rightarrow> []
      | Some c \<Rightarrow> if mHaveBuffer s then [UnlockBuffer c (mBuffer s)] else [])"

definition torn_down :: "MinicapImpl \<Rightarrow> bool" where
  "torn_down s =
     (\<not> mHaveBuffer s \<and> mBufferProducer s = None \<and> mBufferConsumer s = None
      \<and> mConsumer s = None \<and> mWaiter s = None \<and> mVirtualDisplay s = None
      \<and> \<not> mHavePendingFrame s \<and> \<not> mHaveRunningDisplay s)"

section \<open>Inputs to run the model on\<close>

text \<open>
  A 1080 by 1920 display captured at 540 by 960 in orientation 1, the answers of a
  platform on which every call succeeds, the session that results, a locked buffer whose
  rows are padded to 544 pixels, and the same session holding that buffer with one frame
  pending. \<open>scenario_bpp\<close> is the platform's table of bytes per pixel for the codes of
  \<open>platform_formats\<close>.
\<close>

definition empty_buffer :: LockedBuffer where
  "empty_buffer = \<lparr>buf_data = 0, buf_width = 0, buf_height = 0, buf_format = 0, buf_stride = 0\<rparr>"

definition scenario_buffer :: LockedBuffer where
  "scenario_buffer =
     \<lparr>buf_data = 4096, buf_width = 540, buf_height = 960, buf_format = 1, buf_stride = 544\<rparr>"

definition scenario_bpp :: "PixelFormat \<Rightarrow> u32" where
  "scenario_bpp format =
     (if format = 1 \<or> format = 2 \<or> format = 5 then 4
      else if format = 3 then 3
      else if format = 4 \<or> format = 6 \<or> format = 7 then 2
      else 0)"

definition scenario_real :: "real DisplayInfo" where
  "scenario_real =
     \<lparr>info_width = 1080, info_height = 1920, info_orientation = 0, info_fps = 60,
      info_density = 3, info_xdpi = 480, info_ydpi = 480, info_secure = False, info_size = 0\<rparr>"

definition scenario_desired :: "real DisplayInfo" where
  "scenario_desired =
     \<lparr>info_width = 540, info_height = 960, info_orientation = 1, info_fps = 0,
      info_density = 0, info_xdpi = 0, info_ydpi = 0, info_secure = False, info_size = 0\<rparr>"

definition scenario_answers :: create_answers where
  "scenario_answers =
     \<lparr>initCheck_status = NO_ERROR, new_display = Some 1, new_producer = 2,
      new_bufferConsumer = 3, new_cpuConsumer = 4\<rparr>"

definition scenario_session :: MinicapImpl where
  "scenario_session =
     \<lparr>mDisplayId = 0,
      mRealWidth = 1080,
      mRealHeight = 1920,
      mDesiredWidth = 540,
      mDesiredHeight = 960,
      mDesiredOrientation = 1,
      mBufferProducer = Some 2,
      mBufferConsumer = Some 3,
      mConsumer = Some 4,
      mVirtualDisplay = Some 1,
      mWaiter = Some \<lparr>mPendingFrames = 0\<rparr>,
      mHaveBuffer = False,
      mHavePendingFrame = False,
      mHaveRunningDisplay = True,
      mBuffer = empty_buffer\<rparr>"

definition held_session :: MinicapImpl where
  "held_session =
     scenario_session\<lparr>mWaiter := Some \<lparr>mPendingFrames = 1\<rparr>, mHaveBuffer := True,
       mBuffer := scenario_buffer\<rparr>"


definition blank_frame :: Frame where
  "blank_frame =
     \<lparr>frame_data = 0, frame_format = FORMAT_NONE, frame_width = 0, frame_height = 0,
      frame_stride = 0, frame_bpp = 0, frame_size = 0\<rparr>"

text \<open>
  Two locked buffers whose byte count does not fit in 32 bits: one of 65536 rows with a
  stride of 65537 pixels, and one of \<open>2 ^ 28\<close> rows with rows of 540 pixels padded to 544.
\<close>

definition huge_buffer :: LockedBuffer where
  "huge_buffer =
     \<lparr>buf_data = 4096, buf_width = 65536, buf_height = 65536, buf_format = 1,
      buf_stride = 65537\<rparr>"

definition tall_buffer :: LockedBuffer where
  "tall_buffer =
     \<lparr>buf_data = 4096, buf_width = 540, buf_height = 268435456, buf_format = 1,
      buf_stride = 544\<rparr>"

text \<open>
  Floating-point operations without rounding, over the reals, and a platform with one
  display (id 0, 1080 by 1440 pixels at 360 dpi) that answers \<^verbatim>\<open>NAME_NOT_FOUND\<close> for a null
  handle.
\<close>

definition real_ops :: "real float_ops" where
  "real_ops =
     \<lparr>of_u32 = (\<lambda>x. real (unat x)),
      fdiv = (\<lambda>x y. x / y),
      fpow = (\<lambda>x n. x ^ nat n),
      fadd = (\<lambda>x y. x + y),
      fsqrt = sqrt\<rparr>"

definition NAME_NOT_FOUND :: status_t where
  "NAME_NOT_FOUND = - 2"

definition scenario_getBuiltInDisplay :: "int32 \<Rightarrow> handle option" where
  "scenario_getBuiltInDisplay displayId = (if displayId = 0 then Some 1 else None)"

definition scenario_getDisplayInfo :: "handle option \<Rightarrow> status_t \<times> real android_DisplayInfo" where
  "scenario_getDisplayInfo dpy =
     (case dpy of
        None \<Rightarrow>
          (NAME_NOT_FOUND,
           \<lparr>dinfo_w = 0, dinfo_h = 0, dinfo_xdpi = 0, dinfo_ydpi = 0, dinfo_fps = 0,
            dinfo_density = 0, dinfo_orientation = 0, dinfo_secure = False\<rparr>)
      | Some h \<Rightarrow>
          (NO_ERROR,
           \<lparr>dinfo_w = 1080, dinfo_h = 1440, dinfo_xdpi = 360, dinfo_ydpi = 360, dinfo_fps = 60,
            dinfo_density = 3, dinfo_orientation = 0, dinfo_secure = True\<rparr>))"

text \<open>A display-info query that answers \<^verbatim>\<open>NO_ERROR\<close> for every handle, the null handle too.\<close>

definition lenient_getDisplayInfo :: "handle option \<Rightarrow> status_t \<times> real android_DisplayInfo" where
  "lenient_getDisplayInfo dpy =
     (NO_ERROR,
      \<lparr>dinfo_w = 1080, dinfo_h = 1440, dinfo_xdpi = 360, dinfo_ydpi = 360, dinfo_fps = 60,
       dinfo_density = 3, dinfo_orientation = 0, dinfo_secure = True\<rparr>)"

section \<open>Format conversion\<close>

lemma convertFormat_default:
  "c \<notin> set (case_labels pf) \<Longrightarrow> convertFormat pf c = FORMAT_UNKNOWN"
  by (simp add: case_labels_def convertFormat_def)

lemma convertFormat_lookup:
  "convertFormat pf c =
     (case map_of (zip (case_labels pf) targets) c of None \<Rightarrow> FORMAT_UNKNOWN | Some f \<Rightarrow> f)"
  by (simp add: convertFormat_def case_labels_def targets_def)

lemma convertFormat_nth:
  assumes "distinct (case_labels pf)" and "i < 12"
  shows "convertFormat pf (case_labels pf ! i) = targets ! i"
proof -
  have len: "length (case_labels pf) = length targets"
    by (simp add: case_labels_def targets_def)
  have "i < length targets" using assms(2) by (simp add: targets_def)
  with len assms(1) have "map_of (zip (case_labels pf) targets) (case_labels pf ! i) = Some (targets ! i)"
    by (rule map_of_zip_nth)
  then show ?thesis by (simp add: convertFormat_lookup)
qed

text \<open>
  Claim C8. The conversion of a native pixel format is a function of the format code alone
  and has a value for every code. A C++ \<^verbatim>\<open>switch\<close> has pairwise different case labels,
  and then each of the twelve native codes goes to the normalized format of the same name,
  and every code that is none of the twelve goes to \<open>FORMAT_UNKNOWN\<close>.
\<close>

theorem convertFormat_table:
  assumes d: "distinct (case_labels pf)"
  shows "convertFormat pf (PIXEL_FORMAT_NONE pf) = FORMAT_NONE
       \<and> convertFormat pf (PIXEL_FORMAT_CUSTOM pf) = FORMAT_CUSTOM
       \<and> convertFormat pf (PIXEL_FORMAT_TRANSLUCENT pf) = FORMAT_TRANSLUCENT
       \<and> convertFormat pf (PIXEL_FORMAT_TRANSPARENT pf) = FORMAT_TRANSPARENT
       \<and> convertFormat pf (PIXEL_FORMAT_OPAQUE pf) = FORMAT_OPAQUE
       \<and> convertFormat pf (PIXEL_FORMAT_RGBA_8888 pf) = FORMAT_RGBA_8888
       \<and> convertFormat pf (PIXEL_FORMAT_RGBX_8888 pf) = FORMAT_RGBX_8888
       \<and> convertFormat pf (PIXEL_FORMAT_RGB_888 pf) = FORMAT_RGB_888
       \<and> convertFormat pf (PIXEL_FORMAT_RGB_565 pf) = FORMAT_RGB_565
       \<and> convertFormat pf (PIXEL_FORMAT_BGRA_8888 pf) = FORMAT_BGRA_8888
       \<and> convertFormat pf (PIXEL_FORMAT_RGBA_5551 pf) = FORMAT_RGBA_5551
       \<and> convertFormat pf (PIXEL_FORMAT_RGBA_4444 pf) = FORMAT_RGBA_4444
       \<and> (\<forall>c. c \<notin> set (case_labels pf) \<longrightarrow> convertFormat pf c = FORMAT_UNKNOWN)"
proof -
  note n = convertFormat_nth [OF d]
  have "convertFormat pf (PIXEL_FORMAT_NONE pf) = FORMAT_NONE"
    using n [of 0] by (simp add: case_labels_def targets_def)
  moreover have "convertFormat pf (PIXEL_FORMAT_CUSTOM pf) = FORMAT_CUSTOM"
    using n [of 1] by (simp add: case_labels_def targets_def)
  moreover have "convertFormat pf (PIXEL_FORMAT_TRANSLUCENT pf) = FORMAT_TRANSLUCENT"
    using n [of 2] by (simp add: case_labels_def targets_def)
  moreover have "convertFormat pf (PIXEL_FORMAT_TRANSPARENT pf) = FORMAT_TRANSPARENT"
    using n [of 3] by (simp add: case_labels_def targets_def)
  moreover have "convertFormat pf (PIXEL_FORMAT_OPAQUE pf) = FORMAT_OPAQUE"
    using n [of 4] by (simp add: case_labels_def targets_def)
  moreover have "convertFormat pf (PIXEL_FORMAT_RGBA_8888 pf) = FORMAT_RGBA_8888"
    using n [of 5] by (simp add: case_labels_def targets_def)
  moreover have "convertFormat pf (PIXEL_FORMAT_RGBX_8888 pf) = FORMAT_RGBX_8888"
    using n [of 6] by (simp add: case_labels_def targets_def)
  moreover have "convertFormat pf (PIXEL_FORMAT_RGB_888 pf) = FORMAT_RGB_888"
    using n [of 7] by (simp add: case_labels_def targets_def)
  moreover have "convertFormat pf (PIXEL_FORMAT_RGB_565 pf) = FORMAT_RGB_565"
    using n [of 8] by (simp add: case_labels_def targets_def)
  moreover have "convertFormat pf (PIXEL_FORMAT_BGRA_8888 pf) = FORMAT_BGRA_8888"
    using n [of 9] by (simp add: case_labels_def targets_def)
  moreover have "convertFormat pf (PIXEL_FORMAT_RGBA_5551 pf) = FORMAT_RGBA_5551"
    using n [of 10] by (simp add: case_labels_def targets_def)
  moreover have "convertFormat pf (PIXEL_FORMAT_RGBA_4444 pf) = FORMAT_RGBA_4444"
    using n [of 11] by (simp add: case_labels_def targets_def)
  moreover have "\<forall>c. c \<notin> set (case_labels pf) \<longrightarrow> convertFormat pf c = FORMAT_UNKNOWN"
    by (simp add: convertFormat_default)
  ultimately show ?thesis by blast
qed

theorem convertFormat_table_witness:
  "distinct (case_labels platform_formats)
   \<and> convertFormat platform_formats 1 = FORMAT_RGBA_8888
   \<and> convertFormat platform_formats (- 4) = FORMAT_CUSTOM
   \<and> convertFormat platform_formats 7 = FORMAT_RGBA_4444
   \<and> 17 \<notin> set (case_labels platform_formats)
   \<and> convertFormat platform_formats 17 = FORMAT_UNKNOWN"
proof -
  have d: "distinct (case_labels platform_formats)"
    by (simp add: case_labels_def platform_formats_def)
  have n: "17 \<notin> set (case_labels platform_formats)"
    by (simp add: case_labels_def platform_formats_def)
  from convertFormat_table [OF d] n d show ?thesis
    by (simp add: platform_formats_def)
qed

section \<open>The pending-frame counter\<close>

lemma signals_result:
  "mPendingFrames w \<le> INT_MAX \<Longrightarrow>
   signals k w =
     (if mPendingFrames w + int k \<le> INT_MAX
      then Inr (w\<lparr>mPendingFrames := mPendingFrames w + int k\<rparr>)
      else Inl SignedOverflow)"
proof (induction k arbitrary: w)
  case 0
  then show ?case by simp
next
  case (Suc k)
  show ?case
  proof (cases "mPendingFrames w < INT_MAX")
    case True
    let ?v = "w\<lparr>mPendingFrames := mPendingFrames w + 1\<rparr>"
    from True have "mPendingFrames ?v \<le> INT_MAX" by simp
    from Suc.IH [OF this] True show ?thesis
      by (simp add: onFrameAvailable_def algebra_simps)
  next
    case False
    with Suc.prems show ?thesis by (simp add: onFrameAvailable_def)
  qed
qed

lemma decrement_positive:
  "0 < mPendingFrames w \<Longrightarrow> decrement w = Inr (w\<lparr>mPendingFrames := mPendingFrames w - 1\<rparr>)"
  by (simp add: decrement_def INT_MIN_def)

lemma wait_effect:
  assumes "0 \<le> mPendingFrames w" and "mPendingFrames w \<le> INT_MAX"
    and "FrameWaiter_waitForFrame parks w = Inr (Some (rest, w'))"
  shows "\<exists>used. parks = used @ rest
     \<and> 0 < mPendingFrames w + int (sum_list used)
     \<and> mPendingFrames w + int (sum_list used) \<le> INT_MAX
     \<and> w' = w\<lparr>mPendingFrames := mPendingFrames w + int (sum_list used) - 1\<rparr>"
  using assms
proof (induction parks arbitrary: w)
  case Nil
  then have "0 < mPendingFrames w" by (auto split: if_splits)
  with Nil have "[] = [] @ rest \<and> 0 < mPendingFrames w + int (sum_list [])
     \<and> mPendingFrames w + int (sum_list []) \<le> INT_MAX
     \<and> w' = w\<lparr>mPendingFrames := mPendingFrames w + int (sum_list []) - 1\<rparr>"
    by (auto simp: decrement_positive split: if_splits)
  then show ?case by blast
next
  case (Cons k parks)
  show ?case
  proof (cases "mPendingFrames w = 0")
    case True
    let ?v = "w\<lparr>mPendingFrames := mPendingFrames w + int k\<rparr>"
    from True Cons.prems(2,3) have k: "mPendingFrames w + int k \<le> INT_MAX"
      and r: "FrameWaiter_waitForFrame parks ?v = Inr (Some (rest, w'))"
      by (auto simp: signals_result split: if_splits)
    from k Cons.prems(1) have "0 \<le> mPendingFrames ?v" "mPendingFrames ?v \<le> INT_MAX"
      by simp_all
    from Cons.IH [OF this r] obtain used where u: "parks = used @ rest"
      "0 < mPendingFrames ?v + int (sum_list used)"
      "mPendingFrames ?v + int (sum_list used) \<le> INT_MAX"
      "w' = ?v\<lparr>mPendingFrames := mPendingFrames ?v + int (sum_list used) - 1\<rparr>"
      by blast
    then have "k # parks = (k # used) @ rest
      \<and> 0 < mPendingFrames w + int (sum_list (k # used))
      \<and> mPendingFrames w + int (sum_list (k # used)) \<le> INT_MAX
      \<and> w' = w\<lparr>mPendingFrames := mPendingFrames w + int (sum_list (k # used)) - 1\<rparr>"
      by (simp add: algebra_simps)
    then show ?thesis by blast
  next
    case False
    with Cons.prems(1) have p: "0 < mPendingFrames w" by simp
    with False Cons.prems(3) have "rest = k # parks"
      "w' = w\<lparr>mPendingFrames := mPendingFrames w - 1\<rparr>"
      by (simp_all add: decrement_positive)
    with p Cons.prems(2) have "k # parks = [] @ rest
      \<and> 0 < mPendingFrames w + int (sum_list [])
      \<and> mPendingFrames w + int (sum_list []) \<le> INT_MAX
      \<and> w' = w\<lparr>mPendingFrames := mPendingFrames w + int (sum_list []) - 1\<rparr>"
      by simp
    then show ?thesis by blast
  qed
qed

lemma wait_in_range:
  assumes "0 \<le> mPendingFrames w" and "mPendingFrames w \<le> INT_MAX"
    and "FrameWaiter_waitForFrame parks w = Inr (Some (rest, w'))"
  shows "0 \<le> mPendingFrames w' \<and> mPendingFrames w' \<le> INT_MAX"
proof -
  from wait_effect [OF assms] obtain used where
    "0 < mPendingFrames w + int (sum_list used)"
    "mPendingFrames w + int (sum_list used) \<le> INT_MAX"
    "w' = w\<lparr>mPendingFrames := mPendingFrames w + int (sum_list used) - 1\<rparr>"
    by blast
  then show ?thesis by simp
qed

lemma wait_blocks_iff:
  "0 \<le> mPendingFrames w \<Longrightarrow> mPendingFrames w \<le> INT_MAX \<Longrightarrow>
   (FrameWaiter_waitForFrame parks w = Inr None) = (mPendingFrames w + int (sum_list parks) = 0)"
proof (induction parks arbitrary: w)
  case Nil
  then show ?case by (auto simp: decrement_positive)
next
  case (Cons k parks)
  show ?case
  proof (cases "mPendingFrames w = 0")
    case True
    show ?thesis
    proof (cases "int k \<le> INT_MAX")
      case le: True
      let ?v = "w\<lparr>mPendingFrames := mPendingFrames w + int k\<rparr>"
      from True le have "0 \<le> mPendingFrames ?v" "mPendingFrames ?v \<le> INT_MAX" by simp_all
      from Cons.IH [OF this] True le Cons.prems show ?thesis
        by (simp add: signals_result algebra_simps)
    next
      case False
      with True Cons.prems show ?thesis by (simp add: signals_result INT_MAX_def)
    qed
  next
    case False
    with Cons.prems have "0 < mPendingFrames w" by simp
    with False show ?thesis by (simp add: decrement_positive)
  qed
qed

lemma wait_no_fault:
  "0 \<le> mPendingFrames w \<Longrightarrow> mPendingFrames w + int (sum_list parks) \<le> INT_MAX \<Longrightarrow>
   \<exists>r. FrameWaiter_waitForFrame parks w = Inr r"
proof (induction parks arbitrary: w)
  case Nil
  then show ?case by (cases "mPendingFrames w = 0") (auto simp: decrement_positive)
next
  case (Cons k parks)
  show ?case
  proof (cases "mPendingFrames w = 0")
    case True
    let ?v = "w\<lparr>mPendingFrames := mPendingFrames w + int k\<rparr>"
    from Cons.prems have le: "mPendingFrames w + int k \<le> INT_MAX" "mPendingFrames w \<le> INT_MAX"
      by simp_all
    from Cons.prems have "0 \<le> mPendingFrames ?v" "mPendingFrames ?v + int (sum_list parks) \<le> INT_MAX"
      by simp_all
    from Cons.IH [OF this] True le show ?thesis
      by (simp add: signals_result)
  next
    case False
    with Cons.prems have "0 < mPendingFrames w" by simp
    with False show ?thesis by (simp add: decrement_positive)
  qed
qed


lemma reachable_in_range:
  "waiter_reachable w \<Longrightarrow> 0 \<le> mPendingFrames w \<and> mPendingFrames w \<le> INT_MAX"
proof (induction rule: waiter_reachable.induct)
  case init
  show ?case by (simp add: FrameWaiter_new_def INT_MAX_def)
next
  case (signal w w')
  then show ?case by (auto simp: onFrameAvailable_def split: if_splits)
next
  case (wait w parks rest w')
  then show ?case using wait_in_range by blast
qed

lemma covered_run:
  "covered cs (mPendingFrames w) \<Longrightarrow>
   \<exists>w'. run_calls cs w = Inr (Some w')
      \<and> mPendingFrames w' = mPendingFrames w + int (count_list cs Signal) - int (count_list cs Wait)"
proof (induction cs arbitrary: w)
  case Nil
  show ?case by simp
next
  case (Cons c cs)
  show ?case
  proof (cases c)
    case Signal
    let ?v = "w\<lparr>mPendingFrames := mPendingFrames w + 1\<rparr>"
    from Signal Cons.prems have lt: "mPendingFrames w < INT_MAX" and "covered cs (mPendingFrames ?v)"
      by simp_all
    from Cons.IH [OF this(2)] lt Signal show ?thesis
      by (auto simp: onFrameAvailable_def)
  next
    case Wait
    let ?v = "w\<lparr>mPendingFrames := mPendingFrames w - 1\<rparr>"
    from Wait Cons.prems have pos: "0 < mPendingFrames w" and "covered cs (mPendingFrames ?v)"
      by simp_all
    from Cons.IH [OF this(2)] pos Wait show ?thesis
      by (auto simp: decrement_positive)
  qed
qed

lemma prefixes_covered:
  "(\<forall>k \<le> length cs.
      int (count_list (take k cs) Wait) \<le> n + int (count_list (take k cs) Signal)
      \<and> n + int (count_list (take k cs) Signal) - int (count_list (take k cs) Wait) \<le> INT_MAX)
   \<Longrightarrow> covered cs n"
proof (induction cs arbitrary: n)
  case Nil
  show ?case by simp
next
  case (Cons c cs)
  have step: "int (count_list (take (Suc k) (c # cs)) Wait)
      \<le> n + int (count_list (take (Suc k) (c # cs)) Signal)
    \<and> n + int (count_list (take (Suc k) (c # cs)) Signal)
        - int (count_list (take (Suc k) (c # cs)) Wait) \<le> INT_MAX" if "k \<le> length cs" for k
  proof -
    from that have "Suc k \<le> length (c # cs)" by simp
    with Cons.prems show ?thesis by blast
  qed
  show ?case
  proof (cases c)
    case Signal
    have "n < INT_MAX" using step [of 0] Signal by simp
    moreover have "\<forall>k \<le> length cs.
        int (count_list (take k cs) Wait) \<le> (n + 1) + int (count_list (take k cs) Signal)
        \<and> (n + 1) + int (count_list (take k cs) Signal) - int (count_list (take k cs) Wait)
            \<le> INT_MAX"
      using step Signal by fastforce
    from Cons.IH [OF this] have "covered cs (n + 1)" .
    ultimately show ?thesis using Signal by simp
  next
    case Wait
    have "0 < n" using step [of 0] Wait by simp
    moreover have "\<forall>k \<le> length cs.
        int (count_list (take k cs) Wait) \<le> (n - 1) + int (count_list (take k cs) Signal)
        \<and> (n - 1) + int (count_list (take k cs) Signal) - int (count_list (take k cs) Wait)
            \<le> INT_MAX"
      using step Wait by fastforce
    from Cons.IH [OF this] have "covered cs (n - 1)" .
    ultimately show ?thesis using Wait by simp
  qed
qed

lemma covered_prefixes:
  "covered cs n \<Longrightarrow> 0 \<le> n \<Longrightarrow> n \<le> INT_MAX \<Longrightarrow> k \<le> length cs \<Longrightarrow>
   int (count_list (take k cs) Wait) \<le> n + int (count_list (take k cs) Signal)
   \<and> n + int (count_list (take k cs) Signal) - int (count_list (take k cs) Wait) \<le> INT_MAX"
proof (induction cs n arbitrary: k rule: covered.induct)
  case (1 n)
  then show ?case by simp
next
  case (2 cs n)
  show ?case
  proof (cases k)
    case 0
    with 2 show ?thesis by simp
  next
    case (Suc j)
    with "2.prems" have "covered cs (n + 1)" "0 \<le> n + 1" "n + 1 \<le> INT_MAX" "j \<le> length cs"
      by simp_all
    from "2.IH" [OF this] Suc show ?thesis by simp
  qed
next
  case (3 cs n)
  show ?case
  proof (cases k)
    case 0
    with 3 show ?thesis by simp
  next
    case (Suc j)
    with "3.prems" have "covered cs (n - 1)" "0 \<le> n - 1" "n - 1 \<le> INT_MAX" "j \<le> length cs"
      by simp_all
    from "3.IH" [OF this] Suc show ?thesis by simp
  qed
qed

lemma covered_iff: "covered cs 0 \<longleftrightarrow> never_outnumber cs \<and> pending_within_int cs"
proof
  assume c: "covered cs 0"
  have "int (count_list (take k cs) Wait) \<le> 0 + int (count_list (take k cs) Signal)
      \<and> 0 + int (count_list (take k cs) Signal) - int (count_list (take k cs) Wait) \<le> INT_MAX"
    if "k \<le> length cs" for k
    using c _ _ that by (rule covered_prefixes) (simp_all add: INT_MAX_def)
  then show "never_outnumber cs \<and> pending_within_int cs"
    by (simp add: never_outnumber_def pending_within_int_def)
next
  assume "never_outnumber cs \<and> pending_within_int cs"
  then show "covered cs 0"
    by (intro prefixes_covered) (simp add: never_outnumber_def pending_within_int_def)
qed

lemma bounded_run:
  assumes "never_outnumber cs" and "pending_within_int cs"
  shows "\<exists>w'. run_calls cs FrameWaiter_new = Inr (Some w')
      \<and> mPendingFrames w' = int (count_list cs Signal) - int (count_list cs Wait)"
proof -
  from assms have "covered cs 0" by (simp add: covered_iff)
  then have "covered cs (mPendingFrames FrameWaiter_new)" by (simp add: FrameWaiter_new_def)
  from covered_run [OF this] show ?thesis by (simp add: FrameWaiter_new_def)
qed

lemma count_list_replicate: "count_list (replicate n x) y = (if x = y then n else 0)"
  by (induction n) (auto split: if_splits)

lemma signals_then_waits_never_outnumber:
  "never_outnumber (replicate n Signal @ replicate n Wait)"
  by (auto simp: never_outnumber_def count_list_replicate)

lemma signals_overflow:
  "mPendingFrames w \<le> INT_MAX \<Longrightarrow> INT_MAX < mPendingFrames w + int n \<Longrightarrow>
   run_calls (replicate n Signal @ cs) w = Inl SignedOverflow"
proof (induction n arbitrary: w)
  case 0
  then show ?case by simp
next
  case (Suc n)
  show ?case
  proof (cases "mPendingFrames w < INT_MAX")
    case True
    let ?v = "w\<lparr>mPendingFrames := mPendingFrames w + 1\<rparr>"
    from True Suc.prems have "mPendingFrames ?v \<le> INT_MAX" "INT_MAX < mPendingFrames ?v + int n"
      by simp_all
    from Suc.IH [OF this] True show ?thesis by (simp add: onFrameAvailable_def)
  next
    case False
    then show ?thesis by (simp add: onFrameAvailable_def)
  qed
qed

text \<open>
  Claim C2, as amended. In every state that the waiter reaches the counter of pending
  frames is between 0 and \<open>INT_MAX\<close>. A call of \<^verbatim>\<open>waitForFrame\<close> stays parked exactly when
  no frame is pending and none is announced during the whole schedule, and it does not
  overflow the counter while the pending and announced frames together are at most
  \<open>INT_MAX\<close>; when it returns, the counter was positive and the call took exactly one
  off it. For every sequence of signals and waits in which the waits never outnumber
  the signals before them and the signals never exceed the waits before them by more
  than \<open>INT_MAX\<close>, every call returns, and the counter ends at the number of signals minus
  the number of waits: at 0 for N signals and N waits.
\<close>

theorem FrameWaiter_counter_bounded:
  "(waiter_reachable w \<longrightarrow> 0 \<le> mPendingFrames w \<and> mPendingFrames w \<le> INT_MAX)
   \<and> (waiter_reachable w \<longrightarrow>
        (FrameWaiter_waitForFrame parks w = Inr None) = (mPendingFrames w + int (sum_list parks) = 0))
   \<and> (waiter_reachable w \<and> mPendingFrames w + int (sum_list parks) \<le> INT_MAX \<longrightarrow>
        (\<exists>r. FrameWaiter_waitForFrame parks w = Inr r))
   \<and> (waiter_reachable w \<and> FrameWaiter_waitForFrame parks w = Inr (Some (rest, w')) \<longrightarrow>
        (\<exists>used. parks = used @ rest
           \<and> 0 < mPendingFrames w + int (sum_list used)
           \<and> mPendingFrames w' = mPendingFrames w + int (sum_list used) - 1))
   \<and> (never_outnumber cs \<and> pending_within_int cs \<longrightarrow>
        (\<exists>w''. run_calls cs FrameWaiter_new = Inr (Some w'')
           \<and> mPendingFrames w'' = int (count_list cs Signal) - int (count_list cs Wait)))
   \<and> (never_outnumber cs \<and> pending_within_int cs
        \<and> count_list cs Signal = count_list cs Wait \<longrightarrow>
        (\<exists>w''. run_calls cs FrameWaiter_new = Inr (Some w'') \<and> mPendingFrames w'' = 0))"
proof (intro conjI impI)
  assume "waiter_reachable w"
  then show "0 \<le> mPendingFrames w" "mPendingFrames w \<le> INT_MAX"
    by (simp_all add: reachable_in_range)
next
  assume "waiter_reachable w"
  then have "0 \<le> mPendingFrames w" "mPendingFrames w \<le> INT_MAX"
    by (simp_all add: reachable_in_range)
  then show "(FrameWaiter_waitForFrame parks w = Inr None)
      = (mPendingFrames w + int (sum_list parks) = 0)"
    by (rule wait_blocks_iff)
next
  assume a: "waiter_reachable w \<and> mPendingFrames w + int (sum_list parks) \<le> INT_MAX"
  then have "0 \<le> mPendingFrames w" by (simp add: reachable_in_range)
  with a show "\<exists>r. FrameWaiter_waitForFrame parks w = Inr r"
    by (intro wait_no_fault) simp_all
next
  assume a: "waiter_reachable w \<and> FrameWaiter_waitForFrame parks w = Inr (Some (rest, w'))"
  then have n: "0 \<le> mPendingFrames w" "mPendingFrames w \<le> INT_MAX"
    by (simp_all add: reachable_in_range)
  from a have "FrameWaiter_waitForFrame parks w = Inr (Some (rest, w'))" ..
  from wait_effect [OF n this] obtain used where
    u: "parks = used @ rest" "0 < mPendingFrames w + int (sum_list used)"
    "w' = w\<lparr>mPendingFrames := mPendingFrames w + int (sum_list used) - 1\<rparr>"
    by blast
  from u(3) have "mPendingFrames w' = mPendingFrames w + int (sum_list used) - 1" by simp
  with u(1,2) show "\<exists>used. parks = used @ rest
           \<and> 0 < mPendingFrames w + int (sum_list used)
           \<and> mPendingFrames w' = mPendingFrames w + int (sum_list used) - 1"
    by blast
next
  assume "never_outnumber cs \<and> pending_within_int cs"
  then show "\<exists>w''. run_calls cs FrameWaiter_new = Inr (Some w'')
           \<and> mPendingFrames w'' = int (count_list cs Signal) - int (count_list cs Wait)"
    by (simp add: bounded_run)
next
  assume a: "never_outnumber cs \<and> pending_within_int cs
        \<and> count_list cs Signal = count_list cs Wait"
  then have "never_outnumber cs" "pending_within_int cs" by simp_all
  from bounded_run [OF this] a
  show "\<exists>w''. run_calls cs FrameWaiter_new = Inr (Some w'') \<and> mPendingFrames w'' = 0"
    by auto
qed

theorem FrameWaiter_counter_bounded_witness:
  "waiter_reachable FrameWaiter_new
   \<and> FrameWaiter_waitForFrame [0, 2] FrameWaiter_new = Inr (Some ([], \<lparr>mPendingFrames = 1\<rparr>))
   \<and> FrameWaiter_waitForFrame [0, 0] FrameWaiter_new = Inr None
   \<and> never_outnumber [Signal, Signal, Signal, Wait, Wait, Wait]
   \<and> pending_within_int [Signal, Signal, Signal, Wait, Wait, Wait]
   \<and> count_list [Signal, Signal, Signal, Wait, Wait, Wait] Signal = 3
   \<and> count_list [Signal, Signal, Signal, Wait, Wait, Wait] Wait = 3
   \<and> (\<exists>w''. run_calls [Signal, Signal, Signal, Wait, Wait, Wait] FrameWaiter_new = Inr (Some w'')
         \<and> mPendingFrames w'' = 0)"
proof -
  let ?cs = "[Signal, Signal, Signal, Wait, Wait, Wait]"
  have r: "waiter_reachable FrameWaiter_new" by (rule waiter_reachable.init)
  have w: "FrameWaiter_waitForFrame [0, 2] FrameWaiter_new = Inr (Some ([], \<lparr>mPendingFrames = 1\<rparr>))"
    by (simp add: FrameWaiter_new_def signals_result decrement_positive INT_MAX_def)
  have b: "FrameWaiter_waitForFrame [0, 0] FrameWaiter_new = Inr None"
    by (simp add: FrameWaiter_new_def)
  have "covered ?cs 0" by (simp add: INT_MAX_def)
  then have n: "never_outnumber ?cs" "pending_within_int ?cs"
    by (simp_all add: covered_iff)
  have c: "count_list ?cs Signal = 3" "count_list ?cs Wait = 3"
    by simp_all
  then have "never_outnumber ?cs \<and> pending_within_int ?cs
      \<and> count_list ?cs Signal = count_list ?cs Wait"
    using n by simp
  with FrameWaiter_counter_bounded [of FrameWaiter_new "[0, 2]" "[]" "\<lparr>mPendingFrames = 1\<rparr>" ?cs]
  have "\<exists>w''. run_calls ?cs FrameWaiter_new = Inr (Some w'') \<and> mPendingFrames w'' = 0"
    by blast
  with r w b n c show ?thesis by blast
qed

text \<open>
  The claim as it was stated, for every N, fails at \<open>N = 2 ^ 31\<close>: the waits never
  outnumber the signals, there are as many of each, and the run does not reach its
  end, because the last signal overflows the counter.
\<close>

theorem FrameWaiter_counter_overflow:
  "never_outnumber overflow_run
   \<and> count_list overflow_run Signal = count_list overflow_run Wait
   \<and> run_calls overflow_run FrameWaiter_new = Inl SignedOverflow"
proof -
  have 1: "never_outnumber overflow_run"
    unfolding overflow_run_def by (rule signals_then_waits_never_outnumber)
  have 2: "count_list overflow_run Signal = count_list overflow_run Wait"
    unfolding overflow_run_def by (simp only: count_list_append count_list_replicate) simp
  have "mPendingFrames FrameWaiter_new \<le> INT_MAX"
    and "INT_MAX < mPendingFrames FrameWaiter_new + int (2 ^ 31)"
    by (simp_all add: FrameWaiter_new_def INT_MAX_def)
  then have 3: "run_calls overflow_run FrameWaiter_new = Inl SignedOverflow"
    unfolding overflow_run_def by (rule signals_overflow)
  from 1 2 3 show ?thesis by blast
qed

section \<open>The session invariant\<close>

lemma unlockHeldBuffer_ok:
  "mHaveBuffer s \<longrightarrow> mConsumer s \<noteq> None \<Longrightarrow>
   unlockHeldBuffer s = Inr (held_unlock s, s\<lparr>mHaveBuffer := False\<rparr>)"
  by (cases "mConsumer s") (auto simp: unlockHeldBuffer_def held_unlock_def)

lemma destroyVirtualDisplay_ok:
  "mHaveBuffer s \<longrightarrow> mConsumer s \<noteq> None \<Longrightarrow>
   destroyVirtualDisplay s =
     Inr (DestroyDisplay (mVirtualDisplay s) # held_unlock s,
          s\<lparr>mHaveBuffer := False,
            mBufferProducer := None,
            mBufferConsumer := None,
            mConsumer := None,
            mWaiter := None,
            mVirtualDisplay := None,
            mHavePendingFrame := False,
            mHaveRunningDisplay := False\<rparr>)"
  by (simp add: destroyVirtualDisplay_def unlockHeldBuffer_ok)

lemma destroyVirtualDisplay_torn_down:
  "torn_down s \<Longrightarrow> destroyVirtualDisplay s = Inr ([DestroyDisplay None], s)"
  by (simp add: destroyVirtualDisplay_def unlockHeldBuffer_def torn_down_def)

lemma consistent_unlock: "consistent s \<Longrightarrow> mHaveBuffer s \<longrightarrow> mConsumer s \<noteq> None"
  by (auto simp: consistent_def)

lemma consistent_new: "consistent (MinicapImpl_new displayId b0)"
  by (simp add: consistent_def MinicapImpl_new_def)

lemma consistent_setRealInfo: "consistent s \<Longrightarrow> consistent (snd (setRealInfo info s))"
  by (auto simp: consistent_def setRealInfo_def)

lemma consistent_setDesiredInfo: "consistent s \<Longrightarrow> consistent (snd (setDesiredInfo info s))"
  by (auto simp: consistent_def setDesiredInfo_def)

lemma consistent_frameAvailable:
  "consistent s \<Longrightarrow> frameAvailable s = Inr s' \<Longrightarrow> consistent s'"
  by (cases "mWaiter s")
     (auto simp: consistent_def frameAvailable_def onFrameAvailable_def split: if_splits)

lemma consistent_destroy:
  "destroyVirtualDisplay s = Inr (calls, s') \<Longrightarrow> consistent s' \<and> torn_down s'"
  by (auto simp: destroyVirtualDisplay_def unlockHeldBuffer_def consistent_def torn_down_def
      split: if_splits option.splits)

lemma consistent_create:
  "consistent s \<Longrightarrow> \<not> mHaveBuffer s \<Longrightarrow> createVirtualDisplay pf env s = (calls, r, s') \<Longrightarrow>
   consistent s'"
  by (auto simp: createVirtualDisplay_def consistent_def FrameWaiter_new_def Let_def INT_MAX_def
      split: if_splits)

lemma consistent_applyConfigChanges:
  assumes "consistent s" and "applyConfigChanges pf env s = Inr (calls, r, s')"
  shows "consistent s'"
proof (cases "mHaveRunningDisplay s")
  case True
  with assms(2) obtain calls1 s1 calls2 where
    d: "destroyVirtualDisplay s = Inr (calls1, s1)" and
    c: "createVirtualDisplay pf env s1 = (calls2, r, s')"
    by (auto simp: applyConfigChanges_def split: sum.splits prod.splits)
  from consistent_destroy [OF d] have "consistent s1" "\<not> mHaveBuffer s1"
    by (simp_all add: torn_down_def)
  then show ?thesis using c by (rule consistent_create)
next
  case False
  with assms(2) obtain calls2 where c: "createVirtualDisplay pf env s = (calls2, r, s')"
    by (auto simp: applyConfigChanges_def split: prod.splits)
  from assms(1) False have "\<not> mHaveBuffer s" by (auto simp: consistent_def)
  with assms(1) show ?thesis using c by (rule consistent_create)
qed

lemma consistent_consumePendingFrame:
  "consistent s \<Longrightarrow> consumePendingFrame pf bpp lock s frame = Inr (calls, r, s', frame') \<Longrightarrow>
   consistent s'"
  by (cases lock)
     (auto simp: consumePendingFrame_def consistent_def Let_def split: option.splits if_splits)

lemma consistent_waitForFrame:
  assumes "consistent s"
  shows "waitForFrame parks s = Inr (Woken calls rest r s') \<Longrightarrow> consistent s'"
    and "waitForFrame parks s = Inr (Parked calls s') \<Longrightarrow> consistent s'"
proof -
  have u: "unlockHeldBuffer s = Inr (held_unlock s, s\<lparr>mHaveBuffer := False\<rparr>)"
    using assms by (intro unlockHeldBuffer_ok consistent_unlock)
  show "consistent s'" if "waitForFrame parks s = Inr (Parked calls s')"
    using that assms u
    by (auto simp: waitForFrame_def consistent_def split: option.splits sum.splits)
  show "consistent s'" if "waitForFrame parks s = Inr (Woken calls rest r s')"
  proof -
    from that u obtain w w' where w: "mWaiter s = Some w"
      "FrameWaiter_waitForFrame parks w = Inr (Some (rest, w'))"
      "s' = s\<lparr>mHaveBuffer := False, mWaiter := Some w', mHavePendingFrame := True\<rparr>"
      by (auto simp: waitForFrame_def split: option.splits sum.splits)
    from assms w(1) have "0 \<le> mPendingFrames w" "mPendingFrames w \<le> INT_MAX"
      by (simp_all add: consistent_def)
    from wait_in_range [OF this w(2)] assms w(1,3) show ?thesis
      by (auto simp: consistent_def)
  qed
qed

section \<open>The scenario\<close>

text \<open>
  The running session of the scenario stays parked while no frame is announced. After
  one announcement the wait returns, the read of the locked buffer succeeds and
  describes a 540 by 960 frame in RGBA 8888, and one more announcement gives the session
  \<open>held_session\<close>.
\<close>

lemma held_session_reached:
  "\<exists>s0 s1 s2 f.
     frameAvailable scenario_session = Inr s0
     \<and> waitForFrame [] s0 = Inr (Woken [] [] True s1)
     \<and> consumePendingFrame platform_formats scenario_bpp (NO_ERROR, scenario_buffer) s1 blank_frame
         = Inr ([LockNextBuffer 4], True, s2, f)
     \<and> frame_width f = 540 \<and> frame_height f = 960 \<and> frame_format f = FORMAT_RGBA_8888
     \<and> frameAvailable s2 = Inr held_session"
  by (simp add: waitForFrame_def unlockHeldBuffer_def frameAvailable_def onFrameAvailable_def
      decrement_def INT_MAX_def INT_MIN_def
      consumePendingFrame_def scenario_session_def held_session_def scenario_buffer_def
      blank_frame_def convertFormat_def platform_formats_def)

lemma parked_without_signal:
  "waitForFrame [] scenario_session = Inr (Parked [] scenario_session)"
  by (simp add: waitForFrame_def unlockHeldBuffer_def scenario_session_def)

section \<open>Configuration\<close>

lemma createVirtualDisplay_never_true:
  "createVirtualDisplay pf env s = (calls, r, s') \<Longrightarrow> \<not> r"
  by (auto simp: createVirtualDisplay_def bool_of_int_def Let_def split: if_splits)

lemma applyConfigChanges_never_true:
  "applyConfigChanges pf env s = Inr (calls, r, s') \<Longrightarrow> \<not> r"
  by (auto simp: applyConfigChanges_def split: sum.splits prod.splits
      dest: createVirtualDisplay_never_true)

lemma createVirtualDisplay_running:
  "initCheck_status env = NO_ERROR \<Longrightarrow> createVirtualDisplay pf env s = (calls, r, s') \<Longrightarrow>
   mHaveRunningDisplay s'"
  by (auto simp: createVirtualDisplay_def Let_def)

text \<open>
  Claim C1. The claim is that \<^verbatim>\<open>applyConfigChanges\<close> returns true whenever the session
  handle initialises, as in the scenario \<^verbatim>\<open>setRealInfo\<close>, \<^verbatim>\<open>setDesiredInfo\<close>,
  \<^verbatim>\<open>applyConfigChanges\<close>. The code does not: in that scenario, with \<^verbatim>\<open>initCheck\<close>
  answering \<^verbatim>\<open>NO_ERROR\<close>, the virtual display is created and the session runs, and the call
  returns false, because \<^verbatim>\<open>createVirtualDisplay\<close> ends with \<^verbatim>\<open>return 0;\<close>.
\<close>

theorem applyConfigChanges_scenario:
  "initCheck_status scenario_answers = NO_ERROR
   \<and> (\<exists>calls.
        applyConfigChanges platform_formats scenario_answers
          (snd (setDesiredInfo scenario_desired
             (snd (setRealInfo scenario_real (MinicapImpl_new 0 empty_buffer)))))
        = Inr (calls, False, scenario_session))
   \<and> mHaveRunningDisplay scenario_session"
  by (simp add: applyConfigChanges_def createVirtualDisplay_def setDesiredInfo_def
      setRealInfo_def MinicapImpl_new_def scenario_answers_def scenario_session_def
      scenario_real_def scenario_desired_def bool_of_int_def FrameWaiter_new_def)

text \<open>
  Claim C10. \<^verbatim>\<open>setRealInfo\<close> returns true and changes \<^verbatim>\<open>mRealWidth\<close> and \<^verbatim>\<open>mRealHeight\<close>
  only, to the width and height of its argument; the other seven fields of the argument
  do not reach the session, so two arguments that differ in them only leave the same
  session behind. \<^verbatim>\<open>setDesiredInfo\<close> returns true and changes \<^verbatim>\<open>mDesiredWidth\<close>,
  \<^verbatim>\<open>mDesiredHeight\<close> and \<^verbatim>\<open>mDesiredOrientation\<close> only; the other six fields of its argument
  do not reach the session.
\<close>

theorem setters_store_geometry_only:
  "setRealInfo info s
     = (True, s\<lparr>mRealWidth := info_width info, mRealHeight := info_height info\<rparr>)
   \<and> setRealInfo
        (info\<lparr>info_orientation := orientation, info_fps := fps, info_density := density,
           info_xdpi := xdpi, info_ydpi := ydpi, info_secure := secure, info_size := size'\<rparr>) s
     = setRealInfo info s
   \<and> setDesiredInfo info s
     = (True, s\<lparr>mDesiredWidth := info_width info, mDesiredHeight := info_height info,
                mDesiredOrientation := info_orientation info\<rparr>)
   \<and> setDesiredInfo
        (info\<lparr>info_fps := fps, info_density := density, info_xdpi := xdpi, info_ydpi := ydpi,
           info_secure := secure, info_size := size'\<rparr>) s
     = setDesiredInfo info s"
  by (simp add: setRealInfo_def setDesiredInfo_def)

section \<open>Reading a frame\<close>

lemma consumePendingFrame_locked:
  assumes "mConsumer s = Some c"
  shows "consumePendingFrame pf bytesPerPixel (NO_ERROR, b) s frame =
     Inr ([LockNextBuffer c], True,
          s\<lparr>mBuffer := b, mHaveBuffer := True, mHavePendingFrame := False\<rparr>,
          \<lparr>frame_data = buf_data b,
           frame_format = convertFormat pf (buf_format b),
           frame_width = buf_width b,
           frame_height = buf_height b,
           frame_stride = buf_stride b,
           frame_bpp = bytesPerPixel (buf_format b),
           frame_size = buf_stride b * buf_height b * bytesPerPixel (buf_format b)\<rparr>)"
  using assms by (cases frame) (simp add: consumePendingFrame_def)

text \<open>
  Claim C6. When the lock of the next buffer succeeds, \<^verbatim>\<open>consumePendingFrame\<close> returns
  true, every field of the frame descriptor comes from the locked buffer (nothing of
  its previous content is left), the session holds the buffer and has no pending frame.
\<close>

theorem consumePendingFrame_fills_frame:
  assumes "mConsumer s = Some c"
  shows "consumePendingFrame pf bytesPerPixel (NO_ERROR, b) s frame =
     Inr ([LockNextBuffer c], True,
          s\<lparr>mBuffer := b, mHaveBuffer := True, mHavePendingFrame := False\<rparr>,
          \<lparr>frame_data = buf_data b,
           frame_format = convertFormat pf (buf_format b),
           frame_width = buf_width b,
           frame_height = buf_height b,
           frame_stride = buf_stride b,
           frame_bpp = bytesPerPixel (buf_format b),
           frame_size = buf_stride b * buf_height b * bytesPerPixel (buf_format b)\<rparr>)"
  using assms by (cases frame) (simp add: consumePendingFrame_def)

theorem consumePendingFrame_fills_frame_witness:
  "mConsumer scenario_session = Some 4
   \<and> consumePendingFrame platform_formats scenario_bpp (NO_ERROR, scenario_buffer)
        scenario_session blank_frame
     = Inr ([LockNextBuffer 4], True,
            scenario_session\<lparr>mBuffer := scenario_buffer, mHaveBuffer := True,
               mHavePendingFrame := False\<rparr>,
            \<lparr>frame_data = 4096, frame_format = FORMAT_RGBA_8888, frame_width = 540,
             frame_height = 960, frame_stride = 544, frame_bpp = 4, frame_size = 2088960\<rparr>)"
proof -
  have c: "mConsumer scenario_session = Some 4" by (simp add: scenario_session_def)
  have f: "convertFormat platform_formats 1 = FORMAT_RGBA_8888"
    by (simp add: convertFormat_def platform_formats_def)
  from consumePendingFrame_fills_frame [OF c, of platform_formats scenario_bpp scenario_buffer] c f
  show ?thesis by (simp add: scenario_buffer_def scenario_bpp_def)
qed

text \<open>
  Claim C5. When the lock of the next buffer reports a status other than \<^verbatim>\<open>NO_ERROR\<close>,
  \<^verbatim>\<open>consumePendingFrame\<close> returns false after that one lock call, leaves the frame
  descriptor as it was and changes no member of the session: the flags for a held
  buffer and a pending frame keep their values, and \<^verbatim>\<open>mBuffer\<close> holds what the platform's
  lock call left in it, so the session is unchanged when that call left it alone.
\<close>

theorem consumePendingFrame_lock_failed:
  assumes "mConsumer s = Some c" and "err \<noteq> NO_ERROR"
  shows "(\<exists>s'. consumePendingFrame pf bytesPerPixel (err, b) s frame
                 = Inr ([LockNextBuffer c], False, s', frame)
              \<and> s' = s\<lparr>mBuffer := b\<rparr>
              \<and> mHaveBuffer s' = mHaveBuffer s
              \<and> mHavePendingFrame s' = mHavePendingFrame s)
       \<and> consumePendingFrame pf bytesPerPixel (err, mBuffer s) s frame
           = Inr ([LockNextBuffer c], False, s, frame)"
  using assms by (simp add: consumePendingFrame_def)

theorem consumePendingFrame_lock_failed_witness:
  "mConsumer held_session = Some 4 \<and> - 2 \<noteq> NO_ERROR
   \<and> consumePendingFrame platform_formats scenario_bpp (- 2, mBuffer held_session) held_session
        \<lparr>frame_data = 7, frame_format = FORMAT_RGB_565, frame_width = 1, frame_height = 2,
         frame_stride = 3, frame_bpp = 2, frame_size = 12\<rparr>
     = Inr ([LockNextBuffer 4], False, held_session,
            \<lparr>frame_data = 7, frame_format = FORMAT_RGB_565, frame_width = 1, frame_height = 2,
             frame_stride = 3, frame_bpp = 2, frame_size = 12\<rparr>)"
proof -
  have c: "mConsumer held_session = Some 4"
    by (simp add: held_session_def scenario_session_def)
  have e: "- 2 \<noteq> NO_ERROR" by (simp add: NO_ERROR_def)
  from consumePendingFrame_lock_failed [OF c e] c e show ?thesis by simp
qed

lemma unat_product:
  "unat (a * b * c :: u32) = (unat a * unat b * unat c) mod 2 ^ 32"
  by (simp add: unat_word_ariths mod_mult_left_eq)

text \<open>
  Claim C3, as amended. After a successful lock of a buffer with stride \<open>s\<close>, height
  \<open>h\<close> and a format of \<open>b\<close> bytes per pixel, \<^verbatim>\<open>consumePendingFrame\<close> returns true with
  the buffer held, and the frame reports \<open>bpp = b\<close>, taken from the native format, and
  \<open>size = s * h * b\<close> in 32-bit unsigned arithmetic: the product modulo \<open>2 ^ 32\<close>, which
  is the product itself when it is below \<open>2 ^ 32\<close>. When moreover the stride exceeds the
  width and \<open>h\<close> and \<open>b\<close> are positive, the size is greater than \<open>width * h * b\<close>.
\<close>

theorem consumePendingFrame_size:
  assumes "mConsumer s = Some c"
  shows "\<exists>frame'.
     consumePendingFrame pf bytesPerPixel (NO_ERROR, b) s frame
       = Inr ([LockNextBuffer c], True,
              s\<lparr>mBuffer := b, mHaveBuffer := True, mHavePendingFrame := False\<rparr>, frame')
     \<and> frame_width frame' = buf_width b
     \<and> frame_height frame' = buf_height b
     \<and> frame_stride frame' = buf_stride b
     \<and> frame_bpp frame' = bytesPerPixel (buf_format b)
     \<and> frame_size frame' = buf_stride b * buf_height b * bytesPerPixel (buf_format b)
     \<and> unat (frame_size frame')
         = (unat (buf_stride b) * unat (buf_height b) * unat (bytesPerPixel (buf_format b)))
             mod 2 ^ 32
     \<and> (unat (buf_stride b) * unat (buf_height b) * unat (bytesPerPixel (buf_format b)) < 2 ^ 32
          \<longrightarrow> unat (frame_size frame')
              = unat (buf_stride b) * unat (buf_height b) * unat (bytesPerPixel (buf_format b)))
     \<and> (unat (buf_stride b) * unat (buf_height b) * unat (bytesPerPixel (buf_format b)) < 2 ^ 32
          \<and> buf_width b < buf_stride b \<and> 0 < buf_height b \<and> 0 < bytesPerPixel (buf_format b)
          \<longrightarrow> unat (buf_width b) * unat (buf_height b) * unat (bytesPerPixel (buf_format b))
              < unat (frame_size frame'))"
proof -
  let ?s = "buf_stride b" and ?h = "buf_height b" and ?w = "buf_width b"
  let ?p = "bytesPerPixel (buf_format b)"
  let ?f = "\<lparr>frame_data = buf_data b,
           frame_format = convertFormat pf (buf_format b),
           frame_width = ?w, frame_height = ?h, frame_stride = ?s, frame_bpp = ?p,
           frame_size = ?s * ?h * ?p\<rparr>"
  have r: "consumePendingFrame pf bytesPerPixel (NO_ERROR, b) s frame
       = Inr ([LockNextBuffer c], True,
              s\<lparr>mBuffer := b, mHaveBuffer := True, mHavePendingFrame := False\<rparr>, ?f)"
    using assms by (rule consumePendingFrame_locked)
  have m: "unat (?s * ?h * ?p) = (unat ?s * unat ?h * unat ?p) mod 2 ^ 32"
    by (rule unat_product)
  have e: "unat (?s * ?h * ?p) = unat ?s * unat ?h * unat ?p"
    if "unat ?s * unat ?h * unat ?p < 2 ^ 32"
    using m that by simp
  have l: "unat ?w * unat ?h * unat ?p < unat (?s * ?h * ?p)"
    if lt: "unat ?s * unat ?h * unat ?p < 2 ^ 32" and "?w < ?s" "0 < ?h" "0 < ?p"
  proof -
    from that have "unat ?w < unat ?s" "0 < unat ?h" "0 < unat ?p"
      by (simp_all add: word_less_nat_alt unat_gt_0)
    then have "unat ?w * unat ?h * unat ?p < unat ?s * unat ?h * unat ?p"
      by simp
    with e [OF lt] show ?thesis by simp
  qed
  have "frame_width ?f = ?w \<and> frame_height ?f = ?h \<and> frame_stride ?f = ?s
     \<and> frame_bpp ?f = ?p \<and> frame_size ?f = ?s * ?h * ?p"
    by simp
  moreover have "unat (frame_size ?f) = (unat ?s * unat ?h * unat ?p) mod 2 ^ 32"
    using m by simp
  moreover have "unat ?s * unat ?h * unat ?p < 2 ^ 32
      \<longrightarrow> unat (frame_size ?f) = unat ?s * unat ?h * unat ?p"
    using e by simp
  moreover have "unat ?s * unat ?h * unat ?p < 2 ^ 32 \<and> ?w < ?s \<and> 0 < ?h \<and> 0 < ?p
      \<longrightarrow> unat ?w * unat ?h * unat ?p < unat (frame_size ?f)"
    using l by simp
  ultimately show ?thesis using r by blast
qed

theorem consumePendingFrame_size_witness:
  "mConsumer scenario_session = Some 4
   \<and> (\<exists>frame'.
        consumePendingFrame platform_formats scenario_bpp (NO_ERROR, scenario_buffer)
          scenario_session blank_frame
        = Inr ([LockNextBuffer 4], True,
               scenario_session\<lparr>mBuffer := scenario_buffer, mHaveBuffer := True,
                  mHavePendingFrame := False\<rparr>, frame')
        \<and> frame_bpp frame' = 4
        \<and> unat (frame_size frame') = 544 * 960 * 4
        \<and> 540 * 960 * 4 < unat (frame_size frame'))"
proof -
  have c: "mConsumer scenario_session = Some 4" by (simp add: scenario_session_def)
  from consumePendingFrame_size [OF c, of platform_formats scenario_bpp scenario_buffer blank_frame]
  obtain frame' where
    e: "consumePendingFrame platform_formats scenario_bpp (NO_ERROR, scenario_buffer)
          scenario_session blank_frame
        = Inr ([LockNextBuffer 4], True,
               scenario_session\<lparr>mBuffer := scenario_buffer, mHaveBuffer := True,
                  mHavePendingFrame := False\<rparr>, frame')"
    and b: "frame_bpp frame' = scenario_bpp (buf_format scenario_buffer)"
    and s: "frame_size frame'
        = buf_stride scenario_buffer * buf_height scenario_buffer
            * scenario_bpp (buf_format scenario_buffer)"
    by blast
  from b s have "frame_bpp frame' = 4 \<and> unat (frame_size frame') = 544 * 960 * 4
      \<and> 540 * 960 * 4 < unat (frame_size frame')"
    by (simp add: scenario_buffer_def scenario_bpp_def)
  with c e show ?thesis by blast
qed

text \<open>
  The claim as it was stated, for every buffer, fails where the product overflows: a
  stride of 65537, 65536 rows and 4 bytes per pixel make 17180131328 bytes and a
  reported size of 262144; and with a stride of 544 above a width of 540, \<open>2 ^ 28\<close> rows
  and 4 bytes per pixel the reported size is 0, which is \<open>width * h * b\<close> in the same
  arithmetic.
\<close>

theorem consumePendingFrame_size_overflow:
  "consumePendingFrame platform_formats scenario_bpp (NO_ERROR, huge_buffer)
      scenario_session blank_frame
    = Inr ([LockNextBuffer 4], True,
           scenario_session\<lparr>mBuffer := huge_buffer, mHaveBuffer := True,
              mHavePendingFrame := False\<rparr>,
           \<lparr>frame_data = 4096, frame_format = FORMAT_RGBA_8888, frame_width = 65536,
            frame_height = 65536, frame_stride = 65537, frame_bpp = 4, frame_size = 262144\<rparr>)
   \<and> unat (buf_stride huge_buffer) * unat (buf_height huge_buffer)
       * unat (scenario_bpp (buf_format huge_buffer)) = 17180131328
   \<and> consumePendingFrame platform_formats scenario_bpp (NO_ERROR, tall_buffer)
      scenario_session blank_frame
    = Inr ([LockNextBuffer 4], True,
           scenario_session\<lparr>mBuffer := tall_buffer, mHaveBuffer := True,
              mHavePendingFrame := False\<rparr>,
           \<lparr>frame_data = 4096, frame_format = FORMAT_RGBA_8888, frame_width = 540,
            frame_height = 268435456, frame_stride = 544, frame_bpp = 4, frame_size = 0\<rparr>)
   \<and> buf_width tall_buffer < buf_stride tall_buffer
   \<and> buf_width tall_buffer * buf_height tall_buffer * scenario_bpp (buf_format tall_buffer) = 0"
  by (simp add: consumePendingFrame_def scenario_session_def blank_frame_def huge_buffer_def
      tall_buffer_def scenario_bpp_def convertFormat_def platform_formats_def)

section \<open>Waiting for a frame\<close>



section \<open>Release\<close>

text \<open>
  Claim C7. \<^verbatim>\<open>release\<close> destroys the display, unlocks the buffer if one is held, nulls the
  producer, consumer, reader, listener and display handles and clears the running and
  pending-frame flags. A second call right after it leaves that state as it is and
  makes one platform call, \<^verbatim>\<open>destroyDisplay\<close> with the null handle: neither the display
  handle nor the buffer is released twice.
\<close>

theorem release_idempotent:
  assumes "mHaveBuffer s \<longrightarrow> mConsumer s \<noteq> None"
  shows "\<exists>s1. release s = Inr (DestroyDisplay (mVirtualDisplay s) # held_unlock s, s1)
           \<and> torn_down s1
           \<and> release s1 = Inr ([DestroyDisplay None], s1)"
proof -
  let ?s1 = "s\<lparr>mHaveBuffer := False, mBufferProducer := None, mBufferConsumer := None,
               mConsumer := None, mWaiter := None, mVirtualDisplay := None,
               mHavePendingFrame := False, mHaveRunningDisplay := False\<rparr>"
  have 1: "release s = Inr (DestroyDisplay (mVirtualDisplay s) # held_unlock s, ?s1)"
    using assms by (simp add: release_def destroyVirtualDisplay_ok)
  have 2: "torn_down ?s1" by (simp add: torn_down_def)
  then have "release ?s1 = Inr ([DestroyDisplay None], ?s1)"
    unfolding release_def by (rule destroyVirtualDisplay_torn_down)
  with 1 2 show ?thesis by blast
qed

theorem release_idempotent_witness:
  "mHaveBuffer held_session \<and> mConsumer held_session \<noteq> None
   \<and> (\<exists>s1. release held_session
             = Inr ([DestroyDisplay (Some 1), UnlockBuffer 4 scenario_buffer], s1)
          \<and> torn_down s1
          \<and> release s1 = Inr ([DestroyDisplay None], s1))"
proof -
  have c: "mConsumer held_session \<noteq> None" and b: "mHaveBuffer held_session"
    and v: "mVirtualDisplay held_session = Some 1"
    by (simp_all add: held_session_def scenario_session_def)
  have h: "held_unlock held_session = [UnlockBuffer 4 scenario_buffer]"
    by (simp add: held_unlock_def held_session_def scenario_session_def)
  from c have "mHaveBuffer held_session \<longrightarrow> mConsumer held_session \<noteq> None" by simp
  from release_idempotent [OF this] b c v h show ?thesis by simp
qed

section \<open>Display information\<close>

lemma sqrt_25: "sqrt 25 = 5"
  using real_sqrt_abs [of 5] by simp

text \<open>
  Claim C9, as amended. \<^verbatim>\<open>minicap_try_get_display_info\<close> returns false and leaves the
  output as it was exactly when the display-info query reports a status other than
  \<^verbatim>\<open>NO_ERROR\<close>. It makes no test of the display handle: an invalid handle is passed on to
  the query, and the result follows the status that the query reports for it. When the
  query succeeds the function returns true and every field of the output comes from
  the query, the diagonal size being \<open>sqrt (pow (w / xdpi, 2) + pow (h / ydpi, 2))\<close> in
  the platform's floating-point operations.
\<close>

theorem minicap_try_get_display_info_result:
  "(fst (getDisplayInfo (getBuiltInDisplay displayId)) \<noteq> NO_ERROR \<longrightarrow>
      minicap_try_get_display_info fl getBuiltInDisplay getDisplayInfo displayId info
        = (False, info))
   \<and> (getDisplayInfo (getBuiltInDisplay displayId) = (NO_ERROR, dinfo) \<longrightarrow>
      minicap_try_get_display_info fl getBuiltInDisplay getDisplayInfo displayId info
        = (True,
           \<lparr>info_width = dinfo_w dinfo,
            info_height = dinfo_h dinfo,
            info_orientation = dinfo_orientation dinfo,
            info_fps = dinfo_fps dinfo,
            info_density = dinfo_density dinfo,
            info_xdpi = dinfo_xdpi dinfo,
            info_ydpi = dinfo_ydpi dinfo,
            info_secure = dinfo_secure dinfo,
            info_size =
              fsqrt fl
                (fadd fl (fpow fl (fdiv fl (of_u32 fl (dinfo_w dinfo)) (dinfo_xdpi dinfo)) 2)
                         (fpow fl (fdiv fl (of_u32 fl (dinfo_h dinfo)) (dinfo_ydpi dinfo)) 2))\<rparr>))"
proof (intro conjI impI)
  assume "fst (getDisplayInfo (getBuiltInDisplay displayId)) \<noteq> NO_ERROR"
  then show "minicap_try_get_display_info fl getBuiltInDisplay getDisplayInfo displayId info
        = (False, info)"
    by (auto simp: minicap_try_get_display_info_def split: prod.split)
next
  assume "getDisplayInfo (getBuiltInDisplay displayId) = (NO_ERROR, dinfo)"
  then show "minicap_try_get_display_info fl getBuiltInDisplay getDisplayInfo displayId info
        = (True,
           \<lparr>info_width = dinfo_w dinfo,
            info_height = dinfo_h dinfo,
            info_orientation = dinfo_orientation dinfo,
            info_fps = dinfo_fps dinfo,
            info_density = dinfo_density dinfo,
            info_xdpi = dinfo_xdpi dinfo,
            info_ydpi = dinfo_ydpi dinfo,
            info_secure = dinfo_secure dinfo,
            info_size =
              fsqrt fl
                (fadd fl (fpow fl (fdiv fl (of_u32 fl (dinfo_w dinfo)) (dinfo_xdpi dinfo)) 2)
                         (fpow fl (fdiv fl (of_u32 fl (dinfo_h dinfo)) (dinfo_ydpi dinfo)) 2))\<rparr>)"
    by (cases info) (simp add: minicap_try_get_display_info_def)
qed

theorem minicap_try_get_display_info_result_witness:
  "scenario_getBuiltInDisplay 7 = None
   \<and> fst (scenario_getDisplayInfo (scenario_getBuiltInDisplay 7)) \<noteq> NO_ERROR
   \<and> minicap_try_get_display_info real_ops scenario_getBuiltInDisplay scenario_getDisplayInfo 7
        scenario_real = (False, scenario_real)
   \<and> fst (scenario_getDisplayInfo (scenario_getBuiltInDisplay 0)) = NO_ERROR
   \<and> minicap_try_get_display_info real_ops scenario_getBuiltInDisplay scenario_getDisplayInfo 0
        scenario_real
      = (True,
         \<lparr>info_width = 1080, info_height = 1440, info_orientation = 0, info_fps = 60,
          info_density = 3, info_xdpi = 360, info_ydpi = 360, info_secure = True,
          info_size = 5\<rparr>)"
proof -
  let ?d = "\<lparr>dinfo_w = 1080, dinfo_h = 1440, dinfo_xdpi = 360, dinfo_ydpi = 360, dinfo_fps = 60,
            dinfo_density = 3, dinfo_orientation = 0, dinfo_secure = True\<rparr> :: real android_DisplayInfo"
  have a: "scenario_getBuiltInDisplay 7 = None"
    by (simp add: scenario_getBuiltInDisplay_def)
  have b: "fst (scenario_getDisplayInfo (scenario_getBuiltInDisplay 7)) \<noteq> NO_ERROR"
    by (simp add: scenario_getDisplayInfo_def scenario_getBuiltInDisplay_def NAME_NOT_FOUND_def
        NO_ERROR_def)
  have c: "scenario_getDisplayInfo (scenario_getBuiltInDisplay 0) = (NO_ERROR, ?d)"
    by (simp add: scenario_getDisplayInfo_def scenario_getBuiltInDisplay_def)
  have s: "fsqrt real_ops
            (fadd real_ops (fpow real_ops (fdiv real_ops (of_u32 real_ops (dinfo_w ?d)) (dinfo_xdpi ?d)) 2)
                           (fpow real_ops (fdiv real_ops (of_u32 real_ops (dinfo_h ?d)) (dinfo_ydpi ?d)) 2))
           = 5"
    by (simp add: real_ops_def sqrt_25)
  note t = minicap_try_get_display_info_result [where fl = real_ops
      and getBuiltInDisplay = scenario_getBuiltInDisplay
      and getDisplayInfo = scenario_getDisplayInfo and info = scenario_real]
  from t [of 7] b have 1: "minicap_try_get_display_info real_ops scenario_getBuiltInDisplay
      scenario_getDisplayInfo 7 scenario_real = (False, scenario_real)"
    by simp
  from t [of 0 ?d] c have 2: "minicap_try_get_display_info real_ops scenario_getBuiltInDisplay
      scenario_getDisplayInfo 0 scenario_real
      = (True,
         \<lparr>info_width = 1080, info_height = 1440, info_orientation = 0, info_fps = 60,
          info_density = 3, info_xdpi = 360, info_ydpi = 360, info_secure = True,
          info_size = 5\<rparr>)"
    unfolding s by simp
  from a b c 1 2 show ?thesis by simp
qed

text \<open>
  The claim as it was stated fails for an invalid handle whose query answers
  \<^verbatim>\<open>NO_ERROR\<close>: display id 7 has no display, its handle is null, and the function returns
  true and overwrites the output.
\<close>

theorem minicap_try_get_display_info_null_handle:
  "scenario_getBuiltInDisplay 7 = None
   \<and> minicap_try_get_display_info real_ops scenario_getBuiltInDisplay lenient_getDisplayInfo 7
        scenario_real
      = (True,
         \<lparr>info_width = 1080, info_height = 1440, info_orientation = 0, info_fps = 60,
          info_density = 3, info_xdpi = 360, info_ydpi = 360, info_secure = True,
          info_size = 5\<rparr>)"
  by (simp add: minicap_try_get_display_info_def scenario_getBuiltInDisplay_def
      lenient_getDisplayInfo_def scenario_real_def real_ops_def sqrt_25)

end
